theory Spec2Isabelle
  imports Main "HOL-Library.AList" "HOL-Library.Word"
begin

section \<open>Data model of the collaboration session manager\<close>

text \<open>
  The development embeds \<^verbatim>\<open>backend/src/app/api/v1/websocket.py\<close>: the
  \<^verbatim>\<open>ConnectionManager\<close> class, \<^verbatim>\<open>get_websocket_user\<close>, the
  \<^verbatim>\<open>project_websocket\<close> endpoint and \<^verbatim>\<open>handle_edit_message\<close>.

  Python dictionaries keep insertion order, and the broadcast loop iterates in that
  order, so a dictionary is an association list: \<open>d[k] = v\<close> is \<open>AList.update\<close>
  (an existing key keeps its place, a new key goes to the end), \<open>d.pop(k, None)\<close> and
  \<open>del d[k]\<close> are \<open>AList.delete\<close>, \<open>k in d\<close> and \<open>d.get(k)\<close> are \<open>map_of\<close>.
\<close>

datatype json =
    JNull
  | JBool bool
  | JNum int
  | JStr string
  | JArr "json list"
  | JObj "(string \<times> json) list"

type_synonym message = "(string \<times> json) list"

text \<open>A \<^verbatim>\<open>WebSocket\<close> object is identified by a handle.\<close>

type_synonym websocket = nat

text \<open>
  \<^verbatim>\<open>uuid.UUID\<close> is a 128-bit number; \<^verbatim>\<open>str()\<close> of it is the
  canonical form: 32 lower-case hexadecimal digits in groups of 8-4-4-4-12.
\<close>

type_synonym uuid = "128 word"

definition hex_char :: "nat \<Rightarrow> char" where
  "hex_char n = ''0123456789abcdef'' ! (n mod 16)"

definition hex32 :: "uuid \<Rightarrow> string" where
  "hex32 u = map (\<lambda>i. hex_char (unat u div 16 ^ (31 - i))) [0..<32]"

definition str_uuid :: "uuid \<Rightarrow> string" where
  "str_uuid u =
     (let h = hex32 u
      in take 8 h @ ''-'' @ take 4 (drop 8 h) @ ''-'' @ take 4 (drop 12 h) @ ''-''
         @ take 4 (drop 16 h) @ ''-'' @ drop 20 h)"

text \<open>The entry of \<^verbatim>\<open>user_sessions[project_id][user_id]\<close>.\<close>

record session =
  user_info :: message
  connected_at :: string
  last_activity :: string

text \<open>The row that \<^verbatim>\<open>handle_edit_message\<close> builds (\<^verbatim>\<open>EditHistory\<close>).\<close>

record edit_history =
  eh_project_id :: uuid
  eh_user_id :: uuid
  eh_action :: json
  eh_object_type :: json
  eh_object_id :: json
  eh_changes :: json
  eh_previous_data :: json
  eh_new_data :: json
  eh_session_id :: json

text \<open>
  What the process does to the outside, in the order it does it: transport calls on a
  websocket and calls on the database session.
\<close>

datatype event =
    Accept websocket
  | Accept_failed websocket
  | Sent websocket message
  | Send_failed websocket message
  | Close websocket nat
  | Close_failed websocket nat
  | Db_commit edit_history
  | Db_commit_failed edit_history
  | Db_rollback
  | Db_rollback_failed

text \<open>
  \<^verbatim>\<open>asyncio.create_task(self.broadcast_to_project(project_id, message, exclude_user_id))\<close>:
  a broadcast that is scheduled on the event loop and has not run yet.
\<close>

datatype task = Broadcast_task string message "string option"

text \<open>The exceptions that the endpoint meets.\<close>

datatype exn =
    HTTPException nat
  | WebSocketDisconnect
  | JSONDecodeError
  | AttributeError
  | TransportError
  | DatabaseError
  | RuntimeError

text \<open>
  What another connection's task can do to the registry while the task that is followed
  is suspended in an \<^verbatim>\<open>await\<close>: the synchronous block of its
  \<^verbatim>\<open>connect\<close> that writes the two dictionaries, or a
  \<^verbatim>\<open>disconnect\<close> (of its own \<^verbatim>\<open>finally\<close>, or of the cleanup of
  a broadcast of its own).
\<close>

datatype mutation =
    Registers websocket string string message
  | Deregisters string string

text \<open>
  The state: the two dictionaries of the module-level \<^verbatim>\<open>manager\<close>, the
  scheduled tasks, and the environment as the code meets it: the trace of events, the
  websockets whose transport is gone (\<^verbatim>\<open>accept\<close>, \<^verbatim>\<open>send_text\<close>
  and \<^verbatim>\<open>close\<close> raise on them), the clock
  (\<open>clock w i\<close> is what the \<open>i\<close>-th call of \<^verbatim>\<open>datetime.utcnow().isoformat()\<close>
  returns; \<open>ticks\<close> counts the calls made), and what the other tasks will do to the
  registry during the coming suspensions in \<^verbatim>\<open>send_text\<close>: the head of
  \<open>pending\<close> is what they do during the next one.
\<close>

record world =
  active_connections :: "(string \<times> (string \<times> websocket) list) list"
  user_sessions :: "(string \<times> (string \<times> session) list) list"
  tasks :: "task list"
  trace :: "event list"
  broken :: "websocket set"
  clock :: "nat \<Rightarrow> string"
  ticks :: nat
  pending :: "mutation list list"

definition utcnow :: "world \<Rightarrow> string \<times> world" where
  "utcnow w = (clock w (ticks w), w\<lparr>ticks := Suc (ticks w)\<rparr>)"

definition emit :: "event \<Rightarrow> world \<Rightarrow> world" where
  "emit e w = w\<lparr>trace := trace w @ [e]\<rparr>"

section \<open>ConnectionManager\<close>

text \<open>
  \<^verbatim>\<open>if exclude_user_id and user_id == exclude_user_id: continue\<close>. The first
  conjunct is Python truthiness: \<^verbatim>\<open>None\<close> and the empty string exclude nobody.
\<close>

definition excluded :: "string option \<Rightarrow> string \<Rightarrow> bool" where
  "excluded ex uid = (case ex of None \<Rightarrow> False | Some e \<Rightarrow> e \<noteq> [] \<and> uid = e)"

text \<open>
  \<^verbatim>\<open>disconnect\<close>. The leave broadcast is not awaited: it is handed to
  \<^verbatim>\<open>asyncio.create_task\<close>. \<^verbatim>\<open>if user_info:\<close> is truthiness again:
  \<^verbatim>\<open>None\<close> (no session entry) and an empty dictionary schedule nothing.
\<close>

definition user_left_message :: "string \<Rightarrow> message \<Rightarrow> string \<Rightarrow> message" where
  "user_left_message uid info t =
     [(''type'', JStr ''user_left''), (''user_id'', JStr uid),
      (''user_info'', JObj info), (''timestamp'', JStr t)]"

definition drop_connection :: "string \<Rightarrow> string \<Rightarrow> world \<Rightarrow> world" where
  "drop_connection pid uid w =
     (case map_of (active_connections w) pid of
        None \<Rightarrow> w
      | Some conns \<Rightarrow>
          (let conns' = AList.delete uid conns
           in if conns' = []
              then w\<lparr>active_connections := AList.delete pid (active_connections w)\<rparr>
              else w\<lparr>active_connections := AList.update pid conns' (active_connections w)\<rparr>))"

definition disconnect :: "string \<Rightarrow> string \<Rightarrow> world \<Rightarrow> world" where
  "disconnect pid uid w =
     (let w1 = drop_connection pid uid w
      in case map_of (user_sessions w1) pid of
           None \<Rightarrow> w1
         | Some sess \<Rightarrow>
             (let info = (case map_of sess uid of None \<Rightarrow> None | Some s \<Rightarrow> Some (user_info s));
                  sess' = AList.delete uid sess;
                  w2 = (if sess' = []
                        then w1\<lparr>user_sessions := AList.delete pid (user_sessions w1)\<rparr>
                        else w1\<lparr>user_sessions := AList.update pid sess' (user_sessions w1)\<rparr>)
              in case info of
                   None \<Rightarrow> w2
                 | Some i \<Rightarrow>
                     if i = [] then w2
                     else (let (t, w3) = utcnow w2
                           in w3\<lparr>tasks := tasks w3 @
                                 [Broadcast_task pid (user_left_message uid i t) (Some uid)]\<rparr>)))"

text \<open>
  The two assignments of \<^verbatim>\<open>connect\<close> that register the member: the slot
  in \<^verbatim>\<open>active_connections\<close> and the entry in \<^verbatim>\<open>user_sessions\<close>.
\<close>

definition register_connection :: "websocket \<Rightarrow> string \<Rightarrow> string \<Rightarrow> world \<Rightarrow> world" where
  "register_connection ws pid uid w =
     (let conns = (case map_of (active_connections w) pid of None \<Rightarrow> [] | Some c \<Rightarrow> c)
      in w\<lparr>active_connections :=
             AList.update pid (AList.update uid ws conns) (active_connections w)\<rparr>)"

definition register_session :: "string \<Rightarrow> string \<Rightarrow> message \<Rightarrow> world \<Rightarrow> world" where
  "register_session pid uid info w =
     (let sess = (case map_of (user_sessions w) pid of None \<Rightarrow> [] | Some s \<Rightarrow> s);
          (t1, w1) = utcnow w;
          (t2, w2) = utcnow w1
      in w2\<lparr>user_sessions :=
              AList.update pid
                (AList.update uid \<lparr>user_info = info, connected_at = t1, last_activity = t2\<rparr> sess)
                (user_sessions w2)\<rparr>)"

text \<open>
  A suspension. While the task waits, the other tasks do what the head of \<open>pending\<close>
  says, each step as a whole (no step of theirs contains an \<^verbatim>\<open>await\<close>).
\<close>

fun apply_mutation :: "world \<Rightarrow> mutation \<Rightarrow> world" where
  "apply_mutation w (Registers ws pid uid info) =
     register_session pid uid info (register_connection ws pid uid w)"
| "apply_mutation w (Deregisters pid uid) = disconnect pid uid w"

definition next_batch :: "world \<Rightarrow> mutation list" where
  "next_batch w = (case pending w of [] \<Rightarrow> [] | ms # rest \<Rightarrow> ms)"

definition suspend :: "world \<Rightarrow> world" where
  "suspend w = foldl apply_mutation (w\<lparr>pending := tl (pending w)\<rparr>) (next_batch w)"

text \<open>
  \<^verbatim>\<open>await websocket.send_text(json.dumps(message))\<close>: the call is made, the
  task is suspended, and the result says whether the call returned (\<open>True\<close>) or
  raised.
\<close>

definition send_text :: "websocket \<Rightarrow> message \<Rightarrow> world \<Rightarrow> bool \<times> world" where
  "send_text ws m w =
     (if ws \<in> broken w then (False, suspend (emit (Send_failed ws m) w))
      else (True, suspend (emit (Sent ws m) w)))"

text \<open>\<^verbatim>\<open>send_personal_message\<close> catches the exception and logs it.\<close>

definition send_personal_message :: "websocket \<Rightarrow> message \<Rightarrow> world \<Rightarrow> world" where
  "send_personal_message ws m w = snd (send_text ws m w)"

text \<open>
  The loop of \<^verbatim>\<open>broadcast_to_project\<close> iterates
  \<^verbatim>\<open>self.active_connections[project_id].items()\<close>, a view of the dictionary
  itself, not a copy, and it is suspended in every send. The iterator remembers the size
  of the dictionary and its position; when it is asked for the next item and the size
  is no longer the remembered one, it raises
  \<^verbatim>\<open>RuntimeError: dictionary changed size during iteration\<close>. Nothing in
  \<^verbatim>\<open>broadcast_to_project\<close> catches that.

  The iterator holds the dictionary object. When the project loses its last member
  during the suspension, the object is emptied and removed from
  \<^verbatim>\<open>active_connections\<close>; a later \<^verbatim>\<open>connect\<close> makes a new
  object, which the iterator does not see. \<open>detached\<close> says that this happened.
\<close>

definition connections_of :: "string \<Rightarrow> world \<Rightarrow> (string \<times> websocket) list" where
  "connections_of pid w =
     (case map_of (active_connections w) pid of None \<Rightarrow> [] | Some conns \<Rightarrow> conns)"

fun detached :: "string \<Rightarrow> mutation list \<Rightarrow> world \<Rightarrow> bool" where
  "detached pid [] w = False"
| "detached pid (x # xs) w =
     (map_of (active_connections (apply_mutation w x)) pid = None
      \<or> detached pid xs (apply_mutation w x))"

text \<open>
  Whether the iterator, resumed after a suspension that started in \<open>w\<close> and ended in
  \<open>w1\<close>, finds another size than \<open>used\<close>, the size at the start of the loop.
\<close>

definition size_changed :: "string \<Rightarrow> nat \<Rightarrow> world \<Rightarrow> world \<Rightarrow> bool" where
  "size_changed pid used w w1 =
     (detached pid (next_batch w) w \<or> length (connections_of pid w1) \<noteq> used)"

text \<open>
  The loop, with \<open>n\<close> items still to come out of \<open>used\<close>: the item at the
  iterator's position is read from the dictionary as it is now. The result is the
  exception that ended the loop, if any, and \<^verbatim>\<open>failed_connections\<close>.
  (When the size is the same but the keys are not, because members left and as many
  joined during one suspension, CPython goes on from its position in the hash table and
  what it finds there depends on the table's layout; here the loop goes on from its
  position in the dictionary's order. No statement below is about that case.)
\<close>

fun send_each :: "string \<Rightarrow> message \<Rightarrow> string option \<Rightarrow> nat \<Rightarrow> nat \<Rightarrow> world
    \<Rightarrow> (exn option \<times> string list) \<times> world" where
  "send_each pid m ex used 0 w = ((None, []), w)"
| "send_each pid m ex used (Suc n) w =
     (case drop (used - Suc n) (connections_of pid w) of
        [] \<Rightarrow> ((None, []), w)
      | (uid, ws) # later \<Rightarrow>
          if excluded ex uid then send_each pid m ex used n w
          else (let (ok, w1) = send_text ws m w
                in if size_changed pid used w w1 then ((Some RuntimeError, []), w1)
                   else (let ((e, failed), w2) = send_each pid m ex used n w1
                         in ((e, if ok then failed else uid # failed), w2))))"

text \<open>
  \<^verbatim>\<open>broadcast_to_project\<close>. \<open>Inl\<close> is an exception that leaves the
  function: then the cleanup of the failed members is not reached. Otherwise the Python
  function returns without a value: on both paths the caller gets \<^verbatim>\<open>None\<close>,
  which is \<open>Inr None\<close> here; the failed members are deregistered inside.
\<close>

definition broadcast_to_project :: "string \<Rightarrow> message \<Rightarrow> string option \<Rightarrow> world
    \<Rightarrow> (exn + string list option) \<times> world" where
  "broadcast_to_project pid m ex w =
     (case map_of (active_connections w) pid of
        None \<Rightarrow> (Inr None, w)
      | Some conns \<Rightarrow>
          (case send_each pid m ex (length conns) (length conns) w of
             ((Some e, failed_connections), w1) \<Rightarrow> (Inl e, w1)
           | ((None, failed_connections), w1) \<Rightarrow>
               (Inr None, foldl (\<lambda>w' uid. disconnect pid uid w') w1 failed_connections)))"

text \<open>The exception of a call, if it raised.\<close>

definition raised :: "exn + 'a \<Rightarrow> exn option" where
  "raised r = (case r of Inl e \<Rightarrow> Some e | Inr v \<Rightarrow> None)"

definition user_joined_message :: "string \<Rightarrow> message \<Rightarrow> string \<Rightarrow> message" where
  "user_joined_message uid info t =
     [(''type'', JStr ''user_joined''), (''user_id'', JStr uid),
      (''user_info'', JObj info), (''timestamp'', JStr t)]"

definition active_user_entry :: "string \<times> session \<Rightarrow> json" where
  "active_user_entry e =
     JObj [(''user_id'', JStr (fst e)), (''user_info'', JObj (user_info (snd e))),
           (''connected_at'', JStr (connected_at (snd e)))]"

definition active_users :: "string \<Rightarrow> string \<Rightarrow> world \<Rightarrow> json list" where
  "active_users pid uid w =
     map active_user_entry
       (filter (\<lambda>e. fst e \<noteq> uid)
          (case map_of (user_sessions w) pid of None \<Rightarrow> [] | Some sess \<Rightarrow> sess))"

definition active_users_message :: "json list \<Rightarrow> string \<Rightarrow> message" where
  "active_users_message users t =
     [(''type'', JStr ''active_users''), (''users'', JArr users), (''timestamp'', JStr t)]"

text \<open>
  \<^verbatim>\<open>connect\<close>, statement by statement. An exception of
  \<^verbatim>\<open>websocket.accept()\<close> leaves the function before anything is registered;
  an exception of the broadcast leaves it after the registration and before the
  snapshot is sent.
\<close>

definition accept :: "websocket \<Rightarrow> world \<Rightarrow> bool \<times> world" where
  "accept ws w =
     (if ws \<in> broken w then (False, emit (Accept_failed ws) w) else (True, emit (Accept ws) w))"

definition connect :: "websocket \<Rightarrow> string \<Rightarrow> string \<Rightarrow> message \<Rightarrow> world
    \<Rightarrow> exn option \<times> world" where
  "connect ws pid uid info w =
     (let (ok, w1) = accept ws w
      in if \<not> ok then (Some TransportError, w1)
         else (let w2 = register_connection ws pid uid w1;
                   w3 = register_session pid uid info w2;
                   (t, w4) = utcnow w3;
                   (r, w5) = broadcast_to_project pid (user_joined_message uid info t)
                               (Some uid) w4
               in case raised r of
                    Some e \<Rightarrow> (Some e, w5)
                  | None \<Rightarrow>
                      (let users = active_users pid uid w5;
                           (t', w6) = utcnow w5
                       in (None, send_personal_message ws (active_users_message users t') w6))))"

text \<open>\<^verbatim>\<open>get_project_users\<close>: the membership snapshot of the auxiliary endpoint.\<close>

definition project_user_entry :: "string \<times> session \<Rightarrow> json" where
  "project_user_entry e =
     JObj [(''user_id'', JStr (fst e)), (''user_info'', JObj (user_info (snd e))),
           (''connected_at'', JStr (connected_at (snd e))),
           (''last_activity'', JStr (last_activity (snd e)))]"

definition get_project_users :: "string \<Rightarrow> world \<Rightarrow> json list" where
  "get_project_users pid w =
     (case map_of (user_sessions w) pid of
        None \<Rightarrow> []
      | Some sess \<Rightarrow> map project_user_entry sess)"

text \<open>The member ids a snapshot lists, and the member ids with a connection slot.\<close>

definition session_ids :: "string \<Rightarrow> world \<Rightarrow> string list" where
  "session_ids pid w =
     (case map_of (user_sessions w) pid of None \<Rightarrow> [] | Some sess \<Rightarrow> map fst sess)"

definition connection_ids :: "string \<Rightarrow> world \<Rightarrow> string list" where
  "connection_ids pid w =
     (case map_of (active_connections w) pid of None \<Rightarrow> [] | Some conns \<Rightarrow> map fst conns)"

section \<open>The event loop\<close>

text \<open>
  A scheduled task runs when the event loop gets control: the oldest task is taken
  from the queue and its broadcast is executed. Nobody awaits the task, so an exception
  of the broadcast ends the task and goes nowhere else.
\<close>

definition run_task :: "world \<Rightarrow> world" where
  "run_task w =
     (case tasks w of
        [] \<Rightarrow> w
      | Broadcast_task pid m ex # rest \<Rightarrow> snd (broadcast_to_project pid m ex (w\<lparr>tasks := rest\<rparr>)))"

section \<open>The endpoint\<close>

record user =
  u_id :: uuid
  u_username :: string
  u_full_name :: "string option"
  u_email :: string
  u_is_active :: bool

record project =
  p_owner_id :: uuid
  p_is_public :: bool

text \<open>
  How \<^verbatim>\<open>await db.commit()\<close> of a new row goes, and, when it raises, how the
  \<^verbatim>\<open>await db.rollback()\<close> of the handler goes.
\<close>

datatype db_outcome = Commit_ok | Commit_raises_rollback_ok | Commit_raises_rollback_raises

text \<open>
  The collaborators of the endpoint, which are not code of this module:
  \<^verbatim>\<open>verify_token\<close> (\<open>None\<close>: it raised), \<^verbatim>\<open>uuid.UUID(user_id_str)\<close>
  (\<open>None\<close>: it raised), the two \<^verbatim>\<open>select\<close> queries with
  \<^verbatim>\<open>scalar_one_or_none()\<close> (\<open>Inl\<close>: the query raised; \<open>Inr None\<close>: no row),
  and the database session on \<^verbatim>\<open>add\<close> and \<^verbatim>\<open>commit\<close>.
\<close>

record backend =
  verify_token :: "string \<Rightarrow> string option"
  parse_uuid :: "string \<Rightarrow> uuid option"
  find_user :: "uuid \<Rightarrow> exn + user option"
  find_project :: "uuid \<Rightarrow> exn + project option"
  commit_edit :: "edit_history \<Rightarrow> db_outcome"

text \<open>
  \<^verbatim>\<open>get_websocket_user\<close>: whatever goes wrong inside the \<^verbatim>\<open>try\<close>,
  the \<^verbatim>\<open>except Exception\<close> turns it into \<^verbatim>\<open>HTTPException(401)\<close>.
\<close>

definition get_websocket_user :: "backend \<Rightarrow> string \<Rightarrow> exn + user" where
  "get_websocket_user be token =
     (case verify_token be token of
        None \<Rightarrow> Inl (HTTPException 401)
      | Some user_id_str \<Rightarrow>
          (case parse_uuid be user_id_str of
             None \<Rightarrow> Inl (HTTPException 401)
           | Some user_id \<Rightarrow>
               (case find_user be user_id of
                  Inl e \<Rightarrow> Inl (HTTPException 401)
                | Inr None \<Rightarrow> Inl (HTTPException 401)
                | Inr (Some u) \<Rightarrow>
                    if \<not> u_is_active u then Inl (HTTPException 401) else Inr u)))"

text \<open>\<^verbatim>\<open>message.get(key, default)\<close>.\<close>

definition msg_get :: "message \<Rightarrow> string \<Rightarrow> json \<Rightarrow> json" where
  "msg_get m k d = (case map_of m k of None \<Rightarrow> d | Some v \<Rightarrow> v)"

definition make_edit_history :: "uuid \<Rightarrow> uuid \<Rightarrow> message \<Rightarrow> edit_history" where
  "make_edit_history project_id user_id m =
     \<lparr>eh_project_id = project_id,
      eh_user_id = user_id,
      eh_action = msg_get m ''action'' (JStr ''unknown''),
      eh_object_type = msg_get m ''object_type'' (JStr ''unknown''),
      eh_object_id = msg_get m ''object_id'' JNull,
      eh_changes = msg_get m ''changes'' JNull,
      eh_previous_data = msg_get m ''previous_data'' JNull,
      eh_new_data = msg_get m ''new_data'' JNull,
      eh_session_id = msg_get m ''session_id'' JNull\<rparr>"

text \<open>
  \<^verbatim>\<open>handle_edit_message\<close>: the \<^verbatim>\<open>except Exception\<close> logs the failure
  and rolls back; the function then returns normally, with no value. Only an exception
  of the rollback itself leaves the function.
\<close>

definition handle_edit_message :: "backend \<Rightarrow> uuid \<Rightarrow> uuid \<Rightarrow> message \<Rightarrow> world
    \<Rightarrow> exn option \<times> world" where
  "handle_edit_message be project_id user_id m w =
     (let row = make_edit_history project_id user_id m
      in case commit_edit be row of
           Commit_ok \<Rightarrow> (None, emit (Db_commit row) w)
         | Commit_raises_rollback_ok \<Rightarrow>
             (None, emit Db_rollback (emit (Db_commit_failed row) w))
         | Commit_raises_rollback_raises \<Rightarrow>
             (Some DatabaseError, emit Db_rollback_failed (emit (Db_commit_failed row) w)))"

text \<open>The \<^verbatim>\<open>user_info\<close> dictionary of the endpoint.\<close>

definition user_info_of :: "user \<Rightarrow> message" where
  "user_info_of u =
     [(''id'', JStr (str_uuid (u_id u))),
      (''username'', JStr (u_username u)),
      (''full_name'', (case u_full_name u of None \<Rightarrow> JNull | Some n \<Rightarrow> JStr n)),
      (''email'', JStr (u_email u))]"

text \<open>
  \<^verbatim>\<open>{**message, "user_id": ..., "user_info": ..., "timestamp": ...}\<close>: the three
  keys are written after the client's, so they replace the client's values.
\<close>

definition stamp :: "message \<Rightarrow> string \<Rightarrow> message \<Rightarrow> string \<Rightarrow> message" where
  "stamp m uid info t =
     AList.update ''timestamp'' (JStr t)
       (AList.update ''user_info'' (JObj info)
          (AList.update ''user_id'' (JStr uid) m))"

text \<open>The update of \<^verbatim>\<open>last_activity\<close>, done only when the session entry exists.\<close>

definition touch :: "string \<Rightarrow> string \<Rightarrow> world \<Rightarrow> world" where
  "touch pid uid w =
     (case map_of (user_sessions w) pid of
        None \<Rightarrow> w
      | Some sess \<Rightarrow>
          (case map_of sess uid of
             None \<Rightarrow> w
           | Some s \<Rightarrow>
               (let (t, w1) = utcnow w
                in w1\<lparr>user_sessions :=
                        AList.update pid (AList.update uid (s\<lparr>last_activity := t\<rparr>) sess)
                          (user_sessions w1)\<rparr>)))"

definition pong_message :: "string \<Rightarrow> message" where
  "pong_message t = [(''type'', JStr ''pong''), (''timestamp'', JStr t)]"

definition error_message :: "string \<Rightarrow> message" where
  "error_message t =
     [(''type'', JStr ''error''), (''message'', JStr ''Invalid JSON format''),
      (''timestamp'', JStr t)]"

text \<open>
  What \<^verbatim>\<open>await websocket.receive_text()\<close> followed by
  \<^verbatim>\<open>json.loads(data)\<close> gives: the peer closed, the receive raised something
  else, the text is not JSON, or the text is JSON with this value.
\<close>

datatype frame = Peer_closed | Receive_failed | Not_json | Parsed json

text \<open>
  The dispatch on \<^verbatim>\<open>message_type\<close> for a decoded object. The result is the
  exception that leaves the body of the loop, if any.
\<close>

definition dispatch :: "backend \<Rightarrow> websocket \<Rightarrow> uuid \<Rightarrow> user \<Rightarrow> message \<Rightarrow> world
    \<Rightarrow> exn option \<times> world" where
  "dispatch be ws project_id u m w =
     (let message_type = map_of m ''type'';
          pid = str_uuid project_id;
          uid = str_uuid (u_id u);
          w1 = touch pid uid w
      in if message_type = Some (JStr ''edit'') then
           (case handle_edit_message be project_id (u_id u) m w1 of
              (Some e, w2) \<Rightarrow> (Some e, w2)
            | (None, w2) \<Rightarrow>
                (let (t, w3) = utcnow w2;
                     (r, w4) = broadcast_to_project pid (stamp m uid (user_info_of u) t)
                                 (Some uid) w3
                 in (raised r, w4)))
         else if message_type = Some (JStr ''cursor'') then
           (let (t, w2) = utcnow w1;
                (r, w3) = broadcast_to_project pid (stamp m uid (user_info_of u) t)
                            (Some uid) w2
            in (raised r, w3))
         else if message_type = Some (JStr ''ping'') then
           (let (t, w2) = utcnow w1
            in (None, send_personal_message ws (pong_message t) w2))
         else (None, w1))"

text \<open>
  One turn of the \<^verbatim>\<open>while True\<close> loop. A JSON value that is not an object has
  no \<^verbatim>\<open>get\<close>: \<^verbatim>\<open>message.get("type")\<close> raises, and that is not a
  \<^verbatim>\<open>JSONDecodeError\<close>.
\<close>

definition receive_one :: "backend \<Rightarrow> websocket \<Rightarrow> uuid \<Rightarrow> user \<Rightarrow> frame \<Rightarrow> world
    \<Rightarrow> exn option \<times> world" where
  "receive_one be ws project_id u f w =
     (case f of
        Peer_closed \<Rightarrow> (Some WebSocketDisconnect, w)
      | Receive_failed \<Rightarrow> (Some TransportError, w)
      | Not_json \<Rightarrow>
          (let (t, w1) = utcnow w
           in (None, send_personal_message ws (error_message t) w1))
      | Parsed (JObj m) \<Rightarrow> dispatch be ws project_id u m w
      | Parsed _ \<Rightarrow> (Some AttributeError, w))"

text \<open>
  The loop over the frames that arrive. \<open>None\<close> means that the loop has consumed
  them all and is waiting in \<^verbatim>\<open>receive_text\<close>; \<open>Some e\<close> is the exception
  that ended it.
\<close>

fun receive_loop :: "backend \<Rightarrow> websocket \<Rightarrow> uuid \<Rightarrow> user \<Rightarrow> frame list \<Rightarrow> world
    \<Rightarrow> exn option \<times> world" where
  "receive_loop be ws project_id u [] w = (None, w)"
| "receive_loop be ws project_id u (f # fs) w =
     (case receive_one be ws project_id u f w of
        (Some e, w1) \<Rightarrow> (Some e, w1)
      | (None, w1) \<Rightarrow> receive_loop be ws project_id u fs w1)"

text \<open>\<^verbatim>\<open>await websocket.close(code=..., reason=...)\<close>.\<close>

definition close :: "websocket \<Rightarrow> nat \<Rightarrow> world \<Rightarrow> bool \<times> world" where
  "close ws code w =
     (if ws \<in> broken w then (False, emit (Close_failed ws code) w)
      else (True, emit (Close ws code) w))"

text \<open>
  The outer \<^verbatim>\<open>except Exception\<close>: close with 4500, and ignore an exception
  of that close.
\<close>

definition internal_error :: "websocket \<Rightarrow> world \<Rightarrow> world" where
  "internal_error ws w = snd (close ws 4500 w)"

text \<open>
  The inner \<^verbatim>\<open>try\<close> with its \<^verbatim>\<open>finally\<close>: the loop, then
  \<^verbatim>\<open>manager.disconnect\<close> on every exception that ends it. A
  \<^verbatim>\<open>WebSocketDisconnect\<close> is handled there; any other exception goes on to
  the outer handler.
\<close>

definition serve :: "backend \<Rightarrow> websocket \<Rightarrow> uuid \<Rightarrow> user \<Rightarrow> frame list \<Rightarrow> world \<Rightarrow> world" where
  "serve be ws project_id u frames w =
     (case receive_loop be ws project_id u frames w of
        (None, w1) \<Rightarrow> w1
      | (Some e, w1) \<Rightarrow>
          (let w2 = disconnect (str_uuid project_id) (str_uuid (u_id u)) w1
           in if e = WebSocketDisconnect then w2 else internal_error ws w2))"

text \<open>\<^verbatim>\<open>project_websocket\<close>.\<close>

definition project_websocket :: "backend \<Rightarrow> websocket \<Rightarrow> uuid \<Rightarrow> string \<Rightarrow> frame list
    \<Rightarrow> world \<Rightarrow> world" where
  "project_websocket be ws project_id token frames w =
     (case get_websocket_user be token of
        Inl e \<Rightarrow> internal_error ws w
      | Inr u \<Rightarrow>
          (case find_project be project_id of
             Inl e \<Rightarrow> internal_error ws w
           | Inr None \<Rightarrow>
               (case close ws 4404 w of
                  (True, w1) \<Rightarrow> w1
                | (False, w1) \<Rightarrow> internal_error ws w1)
           | Inr (Some p) \<Rightarrow>
               if \<not> p_is_public p \<and> p_owner_id p \<noteq> u_id u then
                 (case close ws 4403 w of
                    (True, w1) \<Rightarrow> w1
                  | (False, w1) \<Rightarrow> internal_error ws w1)
               else
                 (case connect ws (str_uuid project_id) (str_uuid (u_id u)) (user_info_of u) w of
                    (Some e, w1) \<Rightarrow> internal_error ws w1
                  | (None, w1) \<Rightarrow> serve be ws project_id u frames w1)))"

section \<open>Runs of the manager\<close>

text \<open>
  The manager starts with both dictionaries empty. What can happen to it afterwards:
  a connection registers, a member is deregistered, a broadcast is made, the event
  loop runs a scheduled task, the transport of a websocket goes away, other tasks get
  ready to change the registry during the coming suspensions.
\<close>

definition startup :: "websocket set \<Rightarrow> (nat \<Rightarrow> string) \<Rightarrow> world" where
  "startup b c =
     \<lparr>active_connections = [], user_sessions = [], tasks = [], trace = [],
      broken = b, clock = c, ticks = 0, pending = []\<rparr>"

datatype op =
    Connect websocket string string message
  | Disconnect string string
  | Broadcast string message "string option"
  | Run_task
  | Break websocket
  | Others "mutation list list"

fun apply_op :: "world \<Rightarrow> op \<Rightarrow> world" where
  "apply_op w (Connect ws pid uid info) = snd (connect ws pid uid info w)"
| "apply_op w (Disconnect pid uid) = disconnect pid uid w"
| "apply_op w (Broadcast pid m ex) = snd (broadcast_to_project pid m ex w)"
| "apply_op w Run_task = run_task w"
| "apply_op w (Break ws) = w\<lparr>broken := insert ws (broken w)\<rparr>"
| "apply_op w (Others ms) = w\<lparr>pending := pending w @ ms\<rparr>"

definition run :: "op list \<Rightarrow> world \<Rightarrow> world" where
  "run ops w = foldl apply_op w ops"

section \<open>Observations\<close>

text \<open>
  The members a broadcast sends to, and the event that one send leaves in the trace
  (the send is issued in both cases; on a broken websocket it raises).
\<close>

definition recipients :: "string option \<Rightarrow> (string \<times> websocket) list
    \<Rightarrow> (string \<times> websocket) list" where
  "recipients ex conns = filter (\<lambda>c. \<not> excluded ex (fst c)) conns"

definition delivery :: "message \<Rightarrow> websocket set \<Rightarrow> string \<times> websocket \<Rightarrow> event" where
  "delivery m B c = (if snd c \<in> B then Send_failed (snd c) m else Sent (snd c) m)"

definition sessions_of :: "string \<Rightarrow> world \<Rightarrow> (string \<times> session) list" where
  "sessions_of pid w =
     (case map_of (user_sessions w) pid of None \<Rightarrow> [] | Some sess \<Rightarrow> sess)"

text \<open>The messages that were delivered on one websocket, in order.\<close>

definition received :: "websocket \<Rightarrow> event list \<Rightarrow> message list" where
  "received ws tr =
     concat (map (\<lambda>e. case e of Sent ws' m \<Rightarrow> if ws' = ws then [m] else [] | _ \<Rightarrow> []) tr)"

text \<open>The \<^verbatim>\<open>user_id\<close> fields of a list of JSON objects, as a snapshot lists them.\<close>

definition listed_ids :: "json list \<Rightarrow> json list" where
  "listed_ids js = map (\<lambda>j. case j of JObj m \<Rightarrow> msg_get m ''user_id'' JNull | _ \<Rightarrow> JNull) js"

text \<open>A member has no slot in a project's dictionary, and the dictionary is not an empty one.\<close>

definition absent :: "string \<Rightarrow> (string \<times> 'a) list option \<Rightarrow> bool" where
  "absent u d = (case d of None \<Rightarrow> True | Some es \<Rightarrow> es \<noteq> [] \<and> u \<notin> fst ` set es)"

text \<open>
  A dictionary of dictionaries as the manager keeps them: no key twice, on either
  level, and no project with an empty member dictionary.
\<close>

definition wf_dict :: "(string \<times> (string \<times> 'a) list) list \<Rightarrow> bool" where
  "wf_dict d =
     (distinct (map fst d) \<and> list_all (\<lambda>e. snd e \<noteq> [] \<and> distinct (map fst (snd e))) d)"

definition registry_ok :: "world \<Rightarrow> bool" where
  "registry_ok w = (wf_dict (active_connections w) \<and> wf_dict (user_sessions w))"

text \<open>Whether a returned value is a list that names the member.\<close>

definition reports_failed :: "exn + string list option \<Rightarrow> string \<Rightarrow> bool" where
  "reports_failed r uid =
     (case r of Inr (Some failed) \<Rightarrow> uid \<in> set failed | _ \<Rightarrow> False)"

text \<open>A message carries the server's stamp: sender id, sender info and timestamp.\<close>

definition stamped :: "string \<Rightarrow> message \<Rightarrow> string \<Rightarrow> message \<Rightarrow> bool" where
  "stamped uid info t m =
     (map_of m ''user_id'' = Some (JStr uid) \<and> map_of m ''user_info'' = Some (JObj info)
      \<and> map_of m ''timestamp'' = Some (JStr t))"

definition carries_stamp :: "string \<Rightarrow> message \<Rightarrow> string \<Rightarrow> event \<Rightarrow> bool" where
  "carries_stamp uid info t e =
     (case e of
        Sent ws m \<Rightarrow> stamped uid info t m
      | Send_failed ws m \<Rightarrow> stamped uid info t m
      | _ \<Rightarrow> True)"

text \<open>The members whose send raised during a broadcast, in the order of the loop.\<close>

definition failed_members :: "string option \<Rightarrow> string \<Rightarrow> world \<Rightarrow> string list" where
  "failed_members ex p w =
     map fst (filter (\<lambda>c. snd c \<in> broken w) (recipients ex (connections_of p w)))"

text \<open>
  The clock reading that the endpoint takes for the broadcast copy of an inbound
  \<open>edit\<close> or \<open>cursor\<close> message: the first reading after the update of
  \<^verbatim>\<open>last_activity\<close>.
\<close>

definition stamp_time :: "uuid \<Rightarrow> user \<Rightarrow> world \<Rightarrow> string" where
  "stamp_time pid u w = clock w (ticks (touch (str_uuid pid) (str_uuid (u_id u)) w))"

text \<open>The copy that is fanned out, and the sends of the fan-out.\<close>

definition broadcast_copy :: "uuid \<Rightarrow> user \<Rightarrow> message \<Rightarrow> world \<Rightarrow> message" where
  "broadcast_copy pid u m w =
     stamp m (str_uuid (u_id u)) (user_info_of u) (stamp_time pid u w)"

definition fanout :: "uuid \<Rightarrow> user \<Rightarrow> message \<Rightarrow> world \<Rightarrow> event list" where
  "fanout pid u m w =
     map (delivery (broadcast_copy pid u m w) (broken w))
       (recipients (Some (str_uuid (u_id u))) (connections_of (str_uuid pid) w))"

text \<open>The rows that were committed, in order.\<close>

definition commits :: "event list \<Rightarrow> edit_history list" where
  "commits tr = concat (map (\<lambda>e. case e of Db_commit r \<Rightarrow> [r] | _ \<Rightarrow> []) tr)"

section \<open>Example states\<close>

definition plain_session :: "string \<Rightarrow> session" where
  "plain_session name =
     \<lparr>user_info = [(''username'', JStr name)], connected_at = ''t0'', last_activity = ''t0''\<rparr>"

text \<open>Project \<open>p1\<close> with members A, B and C; the transport of B's websocket is gone.\<close>

definition three_members :: world where
  "three_members =
     \<lparr>active_connections = [(''p1'', [(''A'', 1), (''B'', 2), (''C'', 3)])],
      user_sessions = [(''p1'', [(''A'', plain_session ''a''), (''B'', plain_session ''b''),
                                (''C'', plain_session ''c'')])],
      tasks = [], trace = [], broken = {2}, clock = (\<lambda>n. ''t1''), ticks = 0, pending = []\<rparr>"

definition cursor_note :: message where
  "cursor_note = [(''type'', JStr ''cursor''), (''x'', JNum 10), (''y'', JNum 20)]"

text \<open>Project \<open>p1\<close> with members X and Y, both reachable.\<close>

definition two_members :: world where
  "two_members =
     \<lparr>active_connections = [(''p1'', [(''X'', 1), (''Y'', 2)])],
      user_sessions = [(''p1'', [(''X'', plain_session ''x''), (''Y'', plain_session ''y'')])],
      tasks = [], trace = [], broken = {}, clock = (\<lambda>n. ''t1''), ticks = 0, pending = []\<rparr>"

text \<open>The same member connects twice to the same project and is deregistered twice.\<close>

definition reconnect_ops :: "op list" where
  "reconnect_ops =
     [Connect 1 ''p1'' ''u1'' [(''username'', JStr ''u'')],
      Connect 2 ''p1'' ''u1'' [(''username'', JStr ''u'')],
      Disconnect ''p1'' ''u1'',
      Disconnect ''p1'' ''u1'']"

text \<open>
  A project with two members, the first of them Alice; a backend that knows both and
  whose database accepts every row; the same backend with a database that refuses the
  commit; an \<open>edit\<close> message in which the client has put values of its own
  for \<open>user_id\<close> and \<open>timestamp\<close>.
\<close>

definition alice :: user where
  "alice = \<lparr>u_id = 1, u_username = ''alice'', u_full_name = Some ''Alice'',
            u_email = ''alice@example.org'', u_is_active = True\<rparr>"

definition editing_room :: world where
  "editing_room =
     \<lparr>active_connections = [(str_uuid 3, [(str_uuid 1, 10), (str_uuid 2, 20)])],
      user_sessions =
        [(str_uuid 3,
          [(str_uuid 1, \<lparr>user_info = user_info_of alice, connected_at = ''t0'',
                          last_activity = ''t0''\<rparr>),
           (str_uuid 2, plain_session ''bob'')])],
      tasks = [], trace = [], broken = {}, clock = (\<lambda>n. ''t1''), ticks = 0, pending = []\<rparr>"

text \<open>
  The same project with a third member, Carol, while a fourth connection is about to
  register in it during the next suspension.
\<close>

definition busy_room :: world where
  "busy_room =
     \<lparr>active_connections =
        [(str_uuid 3, [(str_uuid 1, 10), (str_uuid 2, 20), (str_uuid 5, 30)])],
      user_sessions =
        [(str_uuid 3,
          [(str_uuid 1, \<lparr>user_info = user_info_of alice, connected_at = ''t0'',
                          last_activity = ''t0''\<rparr>),
           (str_uuid 2, plain_session ''bob''),
           (str_uuid 5, plain_session ''carol'')])],
      tasks = [], trace = [], broken = {}, clock = (\<lambda>n. ''t1''), ticks = 0,
      pending = [[Registers 40 (str_uuid 3) (str_uuid 6) [(''username'', JStr ''dave'')]]]\<rparr>"

text \<open>Project \<open>p1\<close> with X and Y while Z is about to register in it.\<close>

definition two_members_racing :: world where
  "two_members_racing =
     two_members\<lparr>pending := [[Registers 4 ''p1'' ''Z'' [(''username'', JStr ''z'')]]]\<rparr>"

definition bob :: user where
  "bob = \<lparr>u_id = 2, u_username = ''bob'', u_full_name = None,
          u_email = ''bob@example.org'', u_is_active = True\<rparr>"

definition good_backend :: backend where
  "good_backend =
     \<lparr>verify_token = (\<lambda>t. if t = ''alice-token'' then Some (str_uuid 1)
                           else if t = ''bob-token'' then Some (str_uuid 2) else None),
      parse_uuid = (\<lambda>s. if s = str_uuid 1 then Some 1
                         else if s = str_uuid 2 then Some 2 else None),
      find_user = (\<lambda>i. if i = 1 then Inr (Some alice)
                        else if i = 2 then Inr (Some bob) else Inr None),
      find_project = (\<lambda>i. if i = 3 then Inr (Some \<lparr>p_owner_id = 1, p_is_public = False\<rparr>)
                           else Inr None),
      commit_edit = (\<lambda>r. Commit_ok)\<rparr>"


text \<open>The same backend when the lookup of the project raises.\<close>

definition failing_lookup :: backend where
  "failing_lookup = good_backend\<lparr>find_project := (\<lambda>i. Inl DatabaseError)\<rparr>"

text \<open>An \<open>edit\<close> message that has only its type.\<close>

definition bare_edit :: message where
  "bare_edit = [(''type'', JStr ''edit'')]"

definition edit_note :: message where
  "edit_note =
     [(''type'', JStr ''edit''), (''action'', JStr ''update''),
      (''user_id'', JStr ''mallory''), (''timestamp'', JStr ''1999'')]"

section \<open>Basic facts\<close>

lemma length_hex32: "length (hex32 u) = 32"
  by (simp add: hex32_def)

lemma length_str_uuid: "length (str_uuid u) = 36"
  by (simp add: str_uuid_def Let_def length_hex32)

lemma str_uuid_nonempty: "str_uuid u \<noteq> []"
  using length_str_uuid [of u] by auto

lemma str_uuid_neq_short: "length s \<noteq> 36 \<Longrightarrow> str_uuid u \<noteq> s"
  using length_str_uuid [of u] by auto

lemma drop_connection_fields:
  "user_sessions (drop_connection p u w) = user_sessions w"
  "tasks (drop_connection p u w) = tasks w"
  "trace (drop_connection p u w) = trace w"
  "broken (drop_connection p u w) = broken w"
  "clock (drop_connection p u w) = clock w"
  "ticks (drop_connection p u w) = ticks w"
  "pending (drop_connection p u w) = pending w"
  by (simp_all add: drop_connection_def Let_def split: option.split)

lemma disconnect_fields:
  "active_connections (disconnect p u w) = active_connections (drop_connection p u w)"
  "trace (disconnect p u w) = trace w"
  "broken (disconnect p u w) = broken w"
  "clock (disconnect p u w) = clock w"
  "pending (disconnect p u w) = pending w"
  by (simp_all add: disconnect_def Let_def utcnow_def drop_connection_fields split: option.split)

lemma foldl_disconnect_fields:
  "trace (foldl (\<lambda>w' u. disconnect p u w') w us) = trace w"
  "broken (foldl (\<lambda>w' u. disconnect p u w') w us) = broken w"
  "clock (foldl (\<lambda>w' u. disconnect p u w') w us) = clock w"
  "pending (foldl (\<lambda>w' u. disconnect p u w') w us) = pending w"
  by (induction us arbitrary: w) (simp_all add: disconnect_fields)

lemma register_fields:
  "trace (register_session p u i (register_connection ws p u w)) = trace w"
  "broken (register_session p u i (register_connection ws p u w)) = broken w"
  "clock (register_session p u i (register_connection ws p u w)) = clock w"
  "pending (register_session p u i (register_connection ws p u w)) = pending w"
  by (simp_all add: register_session_def register_connection_def Let_def utcnow_def)

lemma apply_mutation_fields:
  "trace (apply_mutation w x) = trace w"
  "broken (apply_mutation w x) = broken w"
  "clock (apply_mutation w x) = clock w"
  "pending (apply_mutation w x) = pending w"
  by (cases x; simp add: register_fields disconnect_fields)+

lemma foldl_apply_mutation_fields:
  "trace (foldl apply_mutation w xs) = trace w"
  "broken (foldl apply_mutation w xs) = broken w"
  "clock (foldl apply_mutation w xs) = clock w"
  "pending (foldl apply_mutation w xs) = pending w"
  by (induction xs arbitrary: w) (simp_all add: apply_mutation_fields)

lemma suspend_fields:
  "trace (suspend w) = trace w"
  "broken (suspend w) = broken w"
  "clock (suspend w) = clock w"
  "pending (suspend w) = tl (pending w)"
  by (simp_all add: suspend_def foldl_apply_mutation_fields)

lemma suspend_quiet: "pending w = [] \<Longrightarrow> suspend w = w"
  by (simp add: suspend_def next_batch_def)

lemma send_text_fields:
  "trace (snd (send_text ws m w)) = trace w @ [delivery m (broken w) (u, ws)]"
  "broken (snd (send_text ws m w)) = broken w"
  "clock (snd (send_text ws m w)) = clock w"
  "fst (send_text ws m w) = (ws \<notin> broken w)"
  by (simp_all add: send_text_def suspend_fields emit_def delivery_def)

lemma send_text_quiet:
  "pending w = [] \<Longrightarrow>
   send_text ws m w = (ws \<notin> broken w, w\<lparr>trace := trace w @ [delivery m (broken w) (u, ws)]\<rparr>)"
  by (simp add: send_text_def suspend_quiet emit_def delivery_def)

lemma send_each_quiet:
  assumes "pending w = []" and "connections_of pid w = cs" and "used = length cs"
    and "n \<le> used"
  shows "send_each pid m ex used n w =
     ((None, map fst (filter (\<lambda>c. snd c \<in> broken w) (recipients ex (drop (used - n) cs)))),
      w\<lparr>trace := trace w @ map (delivery m (broken w)) (recipients ex (drop (used - n) cs))\<rparr>)"
  using assms
proof (induction n arbitrary: w)
  case 0
  then show ?case by (simp add: recipients_def)
next
  case (Suc n)
  have i: "used - Suc n < length cs"
    using Suc.prems by simp
  have s: "Suc (used - Suc n) = used - n"
    using Suc.prems by simp
  obtain uid ws where c: "cs ! (used - Suc n) = (uid, ws)"
    by (cases "cs ! (used - Suc n)")
  have d: "drop (used - Suc n) cs = (uid, ws) # drop (used - n) cs"
    using Cons_nth_drop_Suc [OF i] by (simp add: s c)
  show ?case
  proof (cases "excluded ex uid")
    case True
    have "send_each pid m ex used n w =
       ((None, map fst (filter (\<lambda>c. snd c \<in> broken w) (recipients ex (drop (used - n) cs)))),
        w\<lparr>trace := trace w @ map (delivery m (broken w)) (recipients ex (drop (used - n) cs))\<rparr>)"
      using Suc.prems by (intro Suc.IH) simp_all
    then show ?thesis
      using True by (simp add: Suc.prems(2) d recipients_def)
  next
    case False
    define w1 where "w1 = w\<lparr>trace := trace w @ [delivery m (broken w) (uid, ws)]\<rparr>"
    have st: "send_text ws m w = (ws \<notin> broken w, w1)"
      unfolding w1_def using Suc.prems(1) by (rule send_text_quiet)
    have q1: "pending w1 = []" "connections_of pid w1 = cs" "broken w1 = broken w"
      "trace w1 = trace w @ [delivery m (broken w) (uid, ws)]"
      using Suc.prems by (simp_all add: w1_def connections_of_def)
    have nc: "\<not> size_changed pid used w w1"
      using Suc.prems by (simp add: size_changed_def next_batch_def q1)
    have ih: "send_each pid m ex used n w1 =
       ((None, map fst (filter (\<lambda>c. snd c \<in> broken w1) (recipients ex (drop (used - n) cs)))),
        w1\<lparr>trace := trace w1 @ map (delivery m (broken w1)) (recipients ex (drop (used - n) cs))\<rparr>)"
      using Suc.prems q1 by (intro Suc.IH) simp_all
    show ?thesis
      using False
      by (simp add: Suc.prems(2) d st nc ih q1 recipients_def) (simp add: w1_def delivery_def)
  qed
qed

lemma broadcast_quiet:
  assumes "pending w = []"
  shows "broadcast_to_project p m ex w =
     (Inr None,
      case map_of (active_connections w) p of
        None \<Rightarrow> w
      | Some cs \<Rightarrow> foldl (\<lambda>w' u. disconnect p u w')
          (w\<lparr>trace := trace w @ map (delivery m (broken w)) (recipients ex cs)\<rparr>)
          (failed_members ex p w))"
proof (cases "map_of (active_connections w) p")
  case None
  then show ?thesis by (simp add: broadcast_to_project_def)
next
  case (Some cs)
  then have c: "connections_of p w = cs"
    by (simp add: connections_of_def)
  from send_each_quiet [OF assms c refl order_refl, of m ex]
  show ?thesis
    by (simp add: broadcast_to_project_def Some failed_members_def c)
qed

lemma broadcast_returns_none:
  "pending w = [] \<Longrightarrow> fst (broadcast_to_project p m ex w) = Inr None"
  by (simp add: broadcast_quiet)

lemma broadcast_state:
  "pending w = [] \<Longrightarrow>
   snd (broadcast_to_project p m ex w) =
     (case map_of (active_connections w) p of
        None \<Rightarrow> w
      | Some cs \<Rightarrow> foldl (\<lambda>w' u. disconnect p u w')
          (w\<lparr>trace := trace w @ map (delivery m (broken w)) (recipients ex cs)\<rparr>)
          (failed_members ex p w))"
  by (simp add: broadcast_quiet)

lemma broadcast_trace:
  "pending w = [] \<Longrightarrow>
   trace (snd (broadcast_to_project p m ex w)) =
     trace w @ map (delivery m (broken w)) (recipients ex (connections_of p w))"
  by (simp add: broadcast_state foldl_disconnect_fields recipients_def connections_of_def
      split: option.split)

lemma broadcast_pending:
  "pending w = [] \<Longrightarrow> pending (snd (broadcast_to_project p m ex w)) = []"
  by (simp add: broadcast_state foldl_disconnect_fields split: option.split)

lemma connection_ids_drop:
  "connection_ids q (drop_connection p u w) =
     (if q = p then removeAll u (connection_ids p w) else connection_ids q w)"
  by (auto simp add: connection_ids_def drop_connection_def Let_def update_conv' delete_conv'
      delete_keys [symmetric] split: option.split)

lemma connection_ids_disconnect:
  "connection_ids q (disconnect p u w) =
     (if q = p then removeAll u (connection_ids p w) else connection_ids q w)"
  using connection_ids_drop [of q p u w]
  by (simp add: connection_ids_def disconnect_fields)

lemma session_ids_disconnect:
  "session_ids q (disconnect p u w) =
     (if q = p then removeAll u (session_ids p w) else session_ids q w)"
  by (auto simp add: session_ids_def disconnect_def Let_def utcnow_def drop_connection_fields
      update_conv' delete_conv' delete_keys [symmetric] split: option.split)

lemma drop_connection_noop:
  "absent u (map_of (active_connections w) p) \<Longrightarrow> drop_connection p u w = w"
  by (auto simp add: absent_def drop_connection_def Let_def update_triv split: option.splits)

lemma disconnect_noop:
  assumes "absent u (map_of (active_connections w) p)"
    and "absent u (map_of (user_sessions w) p)"
  shows "disconnect p u w = w"
proof -
  have d: "drop_connection p u w = w"
    using assms(1) by (rule drop_connection_noop)
  show ?thesis
  proof (cases "map_of (user_sessions w) p")
    case None
    then show ?thesis by (simp add: disconnect_def d)
  next
    case (Some sess)
    with assms(2) have ne: "sess \<noteq> []" and nin: "u \<notin> fst ` set sess"
      by (simp_all add: absent_def)
    from nin have "map_of sess u = None"
      by (simp add: map_of_eq_None_iff)
    with Some ne nin show ?thesis
      by (simp add: disconnect_def d Let_def update_triv)
  qed
qed

lemma absent_after_drop:
  "absent u (map_of (active_connections (drop_connection p u w)) p)"
  by (auto simp add: absent_def drop_connection_def Let_def update_conv' delete_conv'
      delete_notin_dom split: option.splits)

lemma absent_after_disconnect:
  "absent u (map_of (user_sessions (disconnect p u w)) p)"
  by (auto simp add: absent_def disconnect_def Let_def utcnow_def update_conv' delete_conv'
      delete_notin_dom split: option.splits)

lemma disconnect_idem: "disconnect p u (disconnect p u w) = disconnect p u w"
  by (rule disconnect_noop)
     (simp_all add: disconnect_fields absent_after_drop absent_after_disconnect)

lemma filter_removeAll: "filter P (removeAll u xs) = filter (\<lambda>k. k \<noteq> u \<and> P k) xs"
  by (induction xs) auto

lemma connection_ids_foldl_disconnect:
  "connection_ids q (foldl (\<lambda>w' u. disconnect p u w') w us) =
     (if q = p then filter (\<lambda>k. k \<notin> set us) (connection_ids p w) else connection_ids q w)"
proof (induction us arbitrary: w)
  case Nil
  show ?case by simp
next
  case (Cons u us)
  show ?case
    by (simp add: Cons.IH connection_ids_disconnect filter_removeAll)
qed

lemma session_ids_foldl_disconnect:
  "session_ids q (foldl (\<lambda>w' u. disconnect p u w') w us) =
     (if q = p then filter (\<lambda>k. k \<notin> set us) (session_ids p w) else session_ids q w)"
proof (induction us arbitrary: w)
  case Nil
  show ?case by simp
next
  case (Cons u us)
  show ?case
    by (simp add: Cons.IH session_ids_disconnect filter_removeAll)
qed

lemma connection_ids_broadcast:
  "pending w = [] \<Longrightarrow>
   connection_ids q (snd (broadcast_to_project p m ex w)) =
     (if q = p then filter (\<lambda>k. k \<notin> set (failed_members ex p w)) (connection_ids p w)
      else connection_ids q w)"
  by (simp add: broadcast_state connection_ids_foldl_disconnect split: option.split)
     (simp add: connection_ids_def)

lemma session_ids_broadcast:
  "pending w = [] \<Longrightarrow>
   session_ids q (snd (broadcast_to_project p m ex w)) =
     (if map_of (active_connections w) p \<noteq> None \<and> q = p
      then filter (\<lambda>k. k \<notin> set (failed_members ex p w)) (session_ids p w)
      else session_ids q w)"
  by (simp add: broadcast_state session_ids_foldl_disconnect split: option.split)
     (simp add: session_ids_def)

lemma listed_ids_project_users:
  "listed_ids (get_project_users p w) = map JStr (session_ids p w)"
  by (simp add: listed_ids_def get_project_users_def session_ids_def project_user_entry_def
      msg_get_def split: option.split)

section \<open>What a broadcast leaves in the trace, whatever the other tasks do\<close>

lemma send_each_trace:
  "\<exists>es. trace (snd (send_each pid m ex used n w)) = trace w @ es \<and>
        list_all (\<lambda>e. \<exists>ws. e = Sent ws m \<or> e = Send_failed ws m) es"
proof (induction n arbitrary: w)
  case 0
  show ?case by simp
next
  case (Suc n)
  show ?case
  proof (cases "drop (used - Suc n) (connections_of pid w)")
    case Nil
    then show ?thesis by simp
  next
    case (Cons c later)
    obtain uid ws where c: "c = (uid, ws)" by (cases c)
    show ?thesis
    proof (cases "excluded ex uid")
      case True
      then show ?thesis using Suc.IH [of w] by (simp add: Cons c)
    next
      case False
      define w1 where "w1 = snd (send_text ws m w)"
      have t1: "trace w1 = trace w @ [delivery m (broken w) (uid, ws)]"
        by (simp add: w1_def send_text_fields(1) [where u = uid])
      obtain es where es: "trace (snd (send_each pid m ex used n w1)) = trace w1 @ es"
        "list_all (\<lambda>e. \<exists>ws. e = Sent ws m \<or> e = Send_failed ws m) es"
        using Suc.IH [of w1] by blast
      have d: "\<exists>ws'. delivery m (broken w) (uid, ws) = Sent ws' m
                \<or> delivery m (broken w) (uid, ws) = Send_failed ws' m"
        by (simp add: delivery_def)
      show ?thesis
      proof (cases "size_changed pid used w w1")
        case True
        have "trace (snd (send_each pid m ex used (Suc n) w)) =
            trace w @ [delivery m (broken w) (uid, ws)]"
          using False True by (simp add: Cons c split_beta w1_def [symmetric] t1)
        with d show ?thesis by (intro exI [of _ "[delivery m (broken w) (uid, ws)]"]) simp
      next
        case nc: False
        have "trace (snd (send_each pid m ex used (Suc n) w)) =
            trace w @ delivery m (broken w) (uid, ws) # es"
          using False nc by (simp add: Cons c split_beta w1_def [symmetric] t1 es(1))
        with d es(2) show ?thesis
          by (intro exI [of _ "delivery m (broken w) (uid, ws) # es"]) simp
      qed
    qed
  qed
qed

lemma broadcast_trace_any:
  "\<exists>es. trace (snd (broadcast_to_project p m ex w)) = trace w @ es \<and>
        list_all (\<lambda>e. \<exists>ws. e = Sent ws m \<or> e = Send_failed ws m) es"
proof (cases "map_of (active_connections w) p")
  case None
  then show ?thesis by (simp add: broadcast_to_project_def)
next
  case (Some cs)
  obtain e fl w1 where se: "send_each p m ex (length cs) (length cs) w = ((e, fl), w1)"
    by (metis surj_pair)
  obtain es where es: "trace w1 = trace w @ es"
    "list_all (\<lambda>e. \<exists>ws. e = Sent ws m \<or> e = Send_failed ws m) es"
    using send_each_trace [of p m ex "length cs" "length cs" w] by (auto simp add: se)
  have "trace (snd (broadcast_to_project p m ex w)) = trace w @ es"
    using es(1)
    by (cases e) (simp_all add: broadcast_to_project_def Some se foldl_disconnect_fields)
  with es(2) show ?thesis by blast
qed

lemma recipients_others:
  "uid \<noteq> [] \<Longrightarrow> recipients (Some uid) cs = filter (\<lambda>c. fst c \<noteq> uid) cs"
  by (simp add: recipients_def excluded_def)

lemma distinct_key_value:
  "distinct (map fst cs) \<Longrightarrow> map_of cs k = Some v \<Longrightarrow> (k, v') \<in> set cs \<Longrightarrow> v' = v"
  by (metis map_of_is_SomeI option.inject)

section \<open>Broadcast with a failing recipient\<close>

text \<open>
  Claim C4, as the code has it. Take a project whose members are A, B and C, registered
  in any order, with A's id not empty, and a broadcast that excludes A during which no
  other task changes the registry. It issues exactly two sends, one to each
  of the two other members, in the order of the registry. The function returns no
  value (Python's None), so no list of failed members reaches the caller. A member
  whose send raises does not stop the loop: the other member's send is issued, and
  delivered if that member's transport works. The member whose send raised is deregistered
  by the broadcast itself, so it has no connection slot afterwards and the membership
  snapshot (\<open>get_project_users\<close>) does not list it; a member whose send was
  delivered keeps its slot.
\<close>

theorem broadcast_three_members:
  assumes "map_of (active_connections w) p = Some cs"
    and "distinct (map fst cs)" and "set (map fst cs) = {a, b, c}"
    and "a \<noteq> b" and "a \<noteq> c" and "b \<noteq> c" and "a \<noteq> []"
    and "pending w = []"
  shows "fst (broadcast_to_project p m (Some a) w) = Inr None \<and>
     trace (snd (broadcast_to_project p m (Some a) w)) =
       trace w @ map (delivery m (broken w)) (filter (\<lambda>e. fst e \<noteq> a) cs) \<and>
     set (map fst (filter (\<lambda>e. fst e \<noteq> a) cs)) = {b, c} \<and>
     length (filter (\<lambda>e. fst e \<noteq> a) cs) = 2 \<and>
     (\<forall>wb. map_of cs b = Some wb \<and> wb \<in> broken w \<longrightarrow>
        Send_failed wb m \<in> set (trace (snd (broadcast_to_project p m (Some a) w))) \<and>
        b \<notin> set (connection_ids p (snd (broadcast_to_project p m (Some a) w))) \<and>
        JStr b \<notin> set (listed_ids (get_project_users p
                        (snd (broadcast_to_project p m (Some a) w))))) \<and>
     (\<forall>wc. map_of cs c = Some wc \<and> wc \<notin> broken w \<longrightarrow>
        Sent wc m \<in> set (trace (snd (broadcast_to_project p m (Some a) w))) \<and>
        c \<in> set (connection_ids p (snd (broadcast_to_project p m (Some a) w))))"
proof -
  note q = assms(8)
  have cs: "connections_of p w = cs"
    using assms(1) by (simp add: connections_of_def)
  have ids: "connection_ids p w = map fst cs"
    using assms(1) by (simp add: connection_ids_def)
  have rc: "recipients (Some a) (connections_of p w) = filter (\<lambda>e. fst e \<noteq> a) cs"
    using assms(7) by (simp add: cs recipients_others)
  have tr: "trace (snd (broadcast_to_project p m (Some a) w)) =
       trace w @ map (delivery m (broken w)) (filter (\<lambda>e. fst e \<noteq> a) cs)"
    by (simp add: broadcast_trace [OF q] rc)
  have fm: "failed_members (Some a) p w =
      map fst (filter (\<lambda>e. snd e \<in> broken w) (filter (\<lambda>e. fst e \<noteq> a) cs))"
    by (simp add: failed_members_def rc)
  have keys: "map fst (filter (\<lambda>e. fst e \<noteq> a) cs) = filter (\<lambda>k. k \<noteq> a) (map fst cs)"
    by (simp add: filter_map comp_def)
  have st: "set (map fst (filter (\<lambda>e. fst e \<noteq> a) cs)) = {b, c}"
    unfolding keys using assms(3-5) by auto
  have dk: "distinct (map fst (filter (\<lambda>e. fst e \<noteq> a) cs))"
    unfolding keys using assms(2) by simp
  have "card (set (map fst (filter (\<lambda>e. fst e \<noteq> a) cs))) = 2"
    unfolding st using assms(6) by simp
  then have ln: "length (filter (\<lambda>e. fst e \<noteq> a) cs) = 2"
    using distinct_card [OF dk] by simp
  have failing: "Send_failed wb m \<in> set (trace (snd (broadcast_to_project p m (Some a) w))) \<and>
        b \<notin> set (connection_ids p (snd (broadcast_to_project p m (Some a) w))) \<and>
        JStr b \<notin> set (listed_ids (get_project_users p
                        (snd (broadcast_to_project p m (Some a) w))))"
    if h: "map_of cs b = Some wb \<and> wb \<in> broken w" for wb
  proof -
    have mem: "(b, wb) \<in> set (filter (\<lambda>e. fst e \<noteq> a) cs)"
      using h assms(4) by (auto dest: map_of_SomeD)
    then have "delivery m (broken w) (b, wb) \<in> set (trace (snd (broadcast_to_project p m (Some a) w)))"
      unfolding tr by (simp add: image_iff) (metis (mono_tags) mem_Collect_eq set_filter mem)
    then have one: "Send_failed wb m \<in> set (trace (snd (broadcast_to_project p m (Some a) w)))"
      using h by (simp add: delivery_def)
    have bf: "b \<in> set (failed_members (Some a) p w)"
      unfolding fm using mem h by force
    have two: "b \<notin> set (connection_ids p (snd (broadcast_to_project p m (Some a) w)))"
      using bf by (simp add: connection_ids_broadcast [OF q])
    have three: "JStr b \<notin> set (listed_ids (get_project_users p
                        (snd (broadcast_to_project p m (Some a) w))))"
      using bf by (auto simp add: listed_ids_project_users session_ids_broadcast [OF q] assms(1))
    from one two three show ?thesis by blast
  qed
  have working: "Sent wc m \<in> set (trace (snd (broadcast_to_project p m (Some a) w))) \<and>
        c \<in> set (connection_ids p (snd (broadcast_to_project p m (Some a) w)))"
    if h: "map_of cs c = Some wc \<and> wc \<notin> broken w" for wc
  proof -
    have mem: "(c, wc) \<in> set (filter (\<lambda>e. fst e \<noteq> a) cs)"
      using h assms(5) by (auto dest: map_of_SomeD)
    then have "delivery m (broken w) (c, wc) \<in> set (trace (snd (broadcast_to_project p m (Some a) w)))"
      unfolding tr by (simp add: image_iff) (metis (mono_tags) mem_Collect_eq set_filter mem)
    then have one: "Sent wc m \<in> set (trace (snd (broadcast_to_project p m (Some a) w)))"
      using h by (simp add: delivery_def)
    have "c \<notin> set (failed_members (Some a) p w)"
    proof
      assume "c \<in> set (failed_members (Some a) p w)"
      then obtain v where v: "(c, v) \<in> set cs" "v \<in> broken w"
        unfolding fm by auto
      from distinct_key_value [OF assms(2) conjunct1 [OF h] v(1)] v(2) h
      show False by simp
    qed
    moreover have "c \<in> set (map fst cs)"
      using assms(3) by simp
    ultimately have two: "c \<in> set (connection_ids p (snd (broadcast_to_project p m (Some a) w)))"
      by (simp add: connection_ids_broadcast [OF q] ids)
    from one two show ?thesis by blast
  qed
  from broadcast_returns_none [OF q] tr st ln failing working
  show ?thesis by blast
qed

theorem broadcast_three_members_witness:
  "map_of (active_connections three_members) ''p1'' = Some [(''A'', 1), (''B'', 2), (''C'', 3)] \<and>
   2 \<in> broken three_members \<and> 1 \<notin> broken three_members \<and>
   trace (snd (broadcast_to_project ''p1'' cursor_note (Some ''C'') three_members)) =
     [Sent 1 cursor_note, Send_failed 2 cursor_note] \<and>
   ''B'' \<notin> set (connection_ids ''p1''
              (snd (broadcast_to_project ''p1'' cursor_note (Some ''C'') three_members))) \<and>
   ''A'' \<in> set (connection_ids ''p1''
              (snd (broadcast_to_project ''p1'' cursor_note (Some ''C'') three_members)))"
proof -
  have m: "map_of (active_connections three_members) ''p1''
      = Some [(''A'', 1), (''B'', 2), (''C'', 3)]"
    and q: "pending three_members = []" and b: "broken three_members = {2}"
    and t: "trace three_members = []"
    by (simp_all add: three_members_def)
  from broadcast_three_members [OF m _ _ _ _ _ _ q, of "''C''" "''B''" "''A''" cursor_note]
  show ?thesis
    by (simp add: m b t delivery_def insert_commute)
qed

text \<open>
  The claim as the specification words it fails: with B's websocket broken, the
  send to B raises, and what the broadcast returns is not a list that reports B.
\<close>

theorem broadcast_reports_nothing:
  "2 \<in> broken three_members \<and>
   Send_failed 2 cursor_note
     \<in> set (trace (snd (broadcast_to_project ''p1'' cursor_note (Some ''A'') three_members))) \<and>
   \<not> reports_failed (fst (broadcast_to_project ''p1'' cursor_note (Some ''A'') three_members)) ''B''"
proof -
  have q: "pending three_members = []"
    by (simp add: three_members_def)
  show ?thesis
    by (simp add: broadcast_returns_none [OF q] broadcast_trace [OF q] reports_failed_def)
       (simp add: three_members_def connections_of_def recipients_def excluded_def delivery_def)
qed

section \<open>Deregistration twice\<close>

text \<open>
  Claim C6. For a member that is registered in a project, the first
  \<open>disconnect\<close> removes it from both dictionaries (the snapshot gets shorter), and a
  second \<open>disconnect\<close> right after it changes nothing at all: the state is the same,
  so no task for a second \<open>user_left\<close> broadcast is scheduled and nothing is sent. The
  function has no path that raises: every lookup in it has a default.
\<close>

theorem disconnect_twice:
  assumes "u \<in> set (connection_ids p w)" and "u \<in> set (session_ids p w)"
  shows "u \<notin> set (connection_ids p (disconnect p u w)) \<and>
     u \<notin> set (session_ids p (disconnect p u w)) \<and>
     length (session_ids p (disconnect p u w)) < length (session_ids p w) \<and>
     disconnect p u (disconnect p u w) = disconnect p u w \<and>
     tasks (disconnect p u (disconnect p u w)) = tasks (disconnect p u w) \<and>
     trace (disconnect p u (disconnect p u w)) = trace w \<and>
     length (tasks (disconnect p u (disconnect p u w))) \<le> Suc (length (tasks w))"
proof -
  have shorter: "length (removeAll u (session_ids p w)) < length (session_ids p w)"
    using assms(2) by (simp add: length_removeAll_less)
  have sched: "length (tasks (disconnect p u w)) \<le> Suc (length (tasks w))"
    by (simp add: disconnect_def Let_def utcnow_def drop_connection_fields split: option.split)
  show ?thesis
    using shorter sched
    by (simp add: disconnect_idem connection_ids_disconnect session_ids_disconnect
        disconnect_fields)
qed

theorem disconnect_twice_witness:
  "''B'' \<in> set (connection_ids ''p1'' three_members) \<and>
   ''B'' \<in> set (session_ids ''p1'' three_members) \<and>
   session_ids ''p1'' (disconnect ''p1'' ''B'' three_members) = [''A'', ''C''] \<and>
   disconnect ''p1'' ''B'' (disconnect ''p1'' ''B'' three_members) =
     disconnect ''p1'' ''B'' three_members"
proof -
  have c: "connection_ids ''p1'' three_members = [''A'', ''B'', ''C'']"
    by (simp add: three_members_def connection_ids_def)
  have s: "session_ids ''p1'' three_members = [''A'', ''B'', ''C'']"
    by (simp add: three_members_def session_ids_def)
  have "''B'' \<in> set (connection_ids ''p1'' three_members)"
    and "''B'' \<in> set (session_ids ''p1'' three_members)"
    by (simp_all add: c s)
  from disconnect_twice [OF this] show ?thesis
    by (simp add: c s session_ids_disconnect)
qed

section \<open>The registry invariant\<close>

lemma list_all_update:
  "list_all P d \<Longrightarrow> P (k, v) \<Longrightarrow> list_all P (AList.update k v d)"
  by (induction d) auto

lemma wf_dict_update:
  "wf_dict d \<Longrightarrow> v \<noteq> [] \<Longrightarrow> distinct (map fst v) \<Longrightarrow> wf_dict (AList.update k v d)"
  by (simp add: wf_dict_def distinct_update list_all_update)

lemma wf_dict_delete: "wf_dict d \<Longrightarrow> wf_dict (AList.delete k d)"
  by (simp add: wf_dict_def distinct_delete) (simp add: AList.delete_eq list_all_iff)

lemma wf_dict_lookup:
  "wf_dict d \<Longrightarrow> map_of d k = Some v \<Longrightarrow> v \<noteq> [] \<and> distinct (map fst v)"
  by (auto simp add: wf_dict_def list_all_iff dest!: map_of_SomeD)

lemma wf_dict_drop:
  assumes "wf_dict d" and "map_of d p = Some es" and "AList.delete u es \<noteq> []"
  shows "wf_dict (AList.update p (AList.delete u es) d)"
proof -
  have "distinct (map fst es)"
    using assms wf_dict_lookup by blast
  then have "distinct (map fst (AList.delete u es))"
    by (rule distinct_delete)
  then show ?thesis
    using assms(1,3) by (simp add: wf_dict_update)
qed

lemma registry_ok_drop:
  assumes "registry_ok w"
  shows "registry_ok (drop_connection p u w)"
proof (cases "map_of (active_connections w) p")
  case None
  then show ?thesis using assms by (simp add: drop_connection_def)
next
  case (Some es)
  have "wf_dict (active_connections w)"
    using assms by (simp add: registry_ok_def)
  then show ?thesis
    using assms Some
    by (simp add: registry_ok_def drop_connection_def Let_def wf_dict_drop wf_dict_delete)
qed

lemma registry_ok_disconnect:
  assumes "registry_ok w"
  shows "registry_ok (disconnect p u w)"
proof -
  have a: "wf_dict (active_connections (disconnect p u w))"
    using registry_ok_drop [OF assms, of p u] by (simp add: disconnect_fields registry_ok_def)
  have s: "wf_dict (user_sessions w)"
    using assms by (simp add: registry_ok_def)
  have b: "wf_dict (user_sessions (disconnect p u w))"
  proof (cases "map_of (user_sessions w) p")
    case None
    then show ?thesis using s by (simp add: disconnect_def drop_connection_fields)
  next
    case (Some es)
    then show ?thesis
      using s
      by (simp add: disconnect_def Let_def utcnow_def drop_connection_fields
          wf_dict_drop wf_dict_delete split: option.split)
  qed
  from a b show ?thesis by (simp add: registry_ok_def)
qed

lemma registry_ok_foldl_disconnect:
  "registry_ok w \<Longrightarrow> registry_ok (foldl (\<lambda>w' u. disconnect p u w') w us)"
  by (induction us arbitrary: w) (simp_all add: registry_ok_disconnect)

lemma registry_ok_trace [simp]: "registry_ok (w\<lparr>trace := t\<rparr>) = registry_ok w"
  by (simp add: registry_ok_def)

lemma registry_ok_ticks [simp]: "registry_ok (w\<lparr>ticks := t\<rparr>) = registry_ok w"
  by (simp add: registry_ok_def)

lemma registry_ok_tasks [simp]: "registry_ok (w\<lparr>tasks := t\<rparr>) = registry_ok w"
  by (simp add: registry_ok_def)

lemma registry_ok_broken [simp]: "registry_ok (w\<lparr>broken := t\<rparr>) = registry_ok w"
  by (simp add: registry_ok_def)

lemma registry_ok_pending [simp]: "registry_ok (w\<lparr>pending := t\<rparr>) = registry_ok w"
  by (simp add: registry_ok_def)

lemma registry_ok_register_connection:
  assumes "registry_ok w"
  shows "registry_ok (register_connection ws p u w)"
proof -
  have d: "wf_dict (active_connections w)"
    using assms by (simp add: registry_ok_def)
  have "distinct (map fst (case map_of (active_connections w) p of None \<Rightarrow> [] | Some c \<Rightarrow> c))"
    using wf_dict_lookup [OF d] by (simp split: option.split)
  then have "distinct (map fst (AList.update u ws
      (case map_of (active_connections w) p of None \<Rightarrow> [] | Some c \<Rightarrow> c)))"
    by (rule distinct_update)
  then show ?thesis
    using assms d by (simp add: registry_ok_def register_connection_def Let_def wf_dict_update)
qed

lemma registry_ok_register_session:
  assumes "registry_ok w"
  shows "registry_ok (register_session p u i w)"
proof -
  have d: "wf_dict (user_sessions w)"
    using assms by (simp add: registry_ok_def)
  have "distinct (map fst (case map_of (user_sessions w) p of None \<Rightarrow> [] | Some c \<Rightarrow> c))"
    using wf_dict_lookup [OF d] by (simp split: option.split)
  then have "\<And>s. distinct (map fst (AList.update u s
      (case map_of (user_sessions w) p of None \<Rightarrow> [] | Some c \<Rightarrow> c)))"
    by (rule distinct_update)
  then show ?thesis
    using assms d
    by (simp add: registry_ok_def register_session_def Let_def utcnow_def wf_dict_update)
qed

lemma registry_ok_apply_mutation: "registry_ok w \<Longrightarrow> registry_ok (apply_mutation w x)"
  by (cases x)
     (simp_all add: registry_ok_register_session registry_ok_register_connection
        registry_ok_disconnect)

lemma registry_ok_others: "registry_ok w \<Longrightarrow> registry_ok (foldl apply_mutation w xs)"
  by (induction xs arbitrary: w) (simp_all add: registry_ok_apply_mutation)

lemma registry_ok_suspend: "registry_ok w \<Longrightarrow> registry_ok (suspend w)"
  by (simp add: suspend_def registry_ok_others)

lemma registry_ok_send_text: "registry_ok w \<Longrightarrow> registry_ok (snd (send_text ws m w))"
  by (simp add: send_text_def emit_def registry_ok_suspend)

lemma registry_ok_send_each:
  "registry_ok w \<Longrightarrow> registry_ok (snd (send_each pid m ex used n w))"
proof (induction n arbitrary: w)
  case 0
  then show ?case by simp
next
  case (Suc n)
  show ?case
  proof (cases "drop (used - Suc n) (connections_of pid w)")
    case Nil
    then show ?thesis using Suc.prems by simp
  next
    case (Cons c later)
    obtain uid ws where c: "c = (uid, ws)" by (cases c)
    have one: "registry_ok (snd (send_text ws m w))"
      using Suc.prems by (rule registry_ok_send_text)
    then have two: "registry_ok (snd (send_each pid m ex used n (snd (send_text ws m w))))"
      by (rule Suc.IH)
    show ?thesis
      using Suc.IH [OF Suc.prems] one two
      by (simp add: Cons c split_beta)
  qed
qed

lemma registry_ok_broadcast:
  "registry_ok w \<Longrightarrow> registry_ok (snd (broadcast_to_project p m ex w))"
proof (cases "map_of (active_connections w) p")
  case None
  assume "registry_ok w"
  with None show ?thesis by (simp add: broadcast_to_project_def)
next
  case (Some cs)
  assume ok: "registry_ok w"
  obtain e fl w1 where se: "send_each p m ex (length cs) (length cs) w = ((e, fl), w1)"
    by (metis surj_pair)
  have "registry_ok w1"
    using registry_ok_send_each [OF ok, of p m ex "length cs" "length cs"] by (simp add: se)
  then show ?thesis
    by (cases e)
       (simp_all add: broadcast_to_project_def Some se registry_ok_foldl_disconnect)
qed

lemma registry_ok_connect:
  assumes "registry_ok w"
  shows "registry_ok (snd (connect ws p u i w))"
proof (cases "ws \<in> broken w")
  case True
  then show ?thesis
    using assms by (simp add: connect_def accept_def emit_def)
next
  case False
  define w4 where
    "w4 = snd (utcnow (register_session p u i (register_connection ws p u (emit (Accept ws) w))))"
  have "registry_ok (register_session p u i (register_connection ws p u (emit (Accept ws) w)))"
    using assms
    by (simp add: registry_ok_register_session registry_ok_register_connection emit_def)
  then have ok4: "registry_ok w4"
    by (simp add: w4_def utcnow_def)
  have ok5: "\<And>m. registry_ok (snd (broadcast_to_project p m (Some u) w4))"
    using ok4 by (rule registry_ok_broadcast)
  have ok6: "\<And>m m'. registry_ok (send_personal_message ws m'
      (snd (utcnow (snd (broadcast_to_project p m (Some u) w4)))))"
    using ok5 by (simp add: send_personal_message_def registry_ok_send_text utcnow_def)
  show ?thesis
    using False ok5 ok6
    by (simp add: connect_def accept_def Let_def split_beta w4_def [symmetric]
        split: option.split)
qed

lemma registry_ok_run_task: "registry_ok w \<Longrightarrow> registry_ok (run_task w)"
  by (simp add: run_task_def registry_ok_broadcast split: list.split task.split)

lemma registry_ok_apply_op: "registry_ok w \<Longrightarrow> registry_ok (apply_op w x)"
  by (cases x)
     (simp_all add: registry_ok_connect registry_ok_disconnect registry_ok_broadcast
        registry_ok_run_task)

lemma registry_ok_run: "registry_ok w \<Longrightarrow> registry_ok (run ops w)"
  unfolding run_def by (induction ops arbitrary: w) (simp_all add: registry_ok_apply_op)

lemma registry_ok_startup: "registry_ok (startup b c)"
  by (simp add: registry_ok_def startup_def wf_dict_def)

lemma count_list_distinct: "distinct xs \<Longrightarrow> count_list xs x \<le> Suc 0"
  by (induction xs) auto

lemma wf_dict_counts:
  assumes "wf_dict d"
  shows "count_list (map fst d) p \<le> Suc 0 \<and>
     count_list (case map_of d p of None \<Rightarrow> [] | Some es \<Rightarrow> map fst es) u \<le> Suc 0 \<and>
     (p \<in> set (map fst d) \<longleftrightarrow>
        Suc 0 \<le> length (case map_of d p of None \<Rightarrow> [] | Some es \<Rightarrow> map fst es))"
proof -
  have one: "count_list (map fst d) p \<le> Suc 0"
    using assms by (simp add: wf_dict_def count_list_distinct)
  have two: "count_list (case map_of d p of None \<Rightarrow> [] | Some es \<Rightarrow> map fst es) u \<le> Suc 0"
    using wf_dict_lookup [OF assms, where k = p]
    by (simp add: count_list_distinct split: option.split)
  have three: "p \<in> set (map fst d) \<longleftrightarrow>
           Suc 0 \<le> length (case map_of d p of None \<Rightarrow> [] | Some es \<Rightarrow> map fst es)"
  proof (cases "map_of d p")
    case None
    then have "p \<notin> fst ` set d"
      by (simp add: map_of_eq_None_iff)
    with None show ?thesis by simp
  next
    case (Some es)
    then have "es \<noteq> []" using wf_dict_lookup [OF assms] by blast
    moreover have "p \<in> fst ` set d"
      using Some by (metis map_of_eq_None_iff option.distinct(1))
    ultimately show ?thesis using Some by (cases es) simp_all
  qed
  from one two three show ?thesis by blast
qed

text \<open>
  Claim C5. Start from the empty manager and let any sequence of operations happen:
  connects and disconnects on any keys (so also repeatedly on the same key),
  broadcasts, scheduled tasks, websockets breaking, other tasks changing the registry
  while a send is suspended. At every point of the sequence
  (after the first \<open>n\<close> operations, for every \<open>n\<close>) each project id occurs at most
  once in either dictionary, each member id occurs at most once in a project's
  connections and in its sessions, and a project id is a key of a dictionary exactly
  when the project has at least one member there: no project entry stays empty.
\<close>

theorem registry_invariant:
  "count_list (map fst (active_connections (run (take n ops) (startup b c)))) p \<le> 1 \<and>
   count_list (map fst (user_sessions (run (take n ops) (startup b c)))) p \<le> 1 \<and>
   count_list (connection_ids p (run (take n ops) (startup b c))) u \<le> 1 \<and>
   count_list (session_ids p (run (take n ops) (startup b c))) u \<le> 1 \<and>
   (p \<in> set (map fst (active_connections (run (take n ops) (startup b c)))) \<longleftrightarrow>
      1 \<le> length (connection_ids p (run (take n ops) (startup b c)))) \<and>
   (p \<in> set (map fst (user_sessions (run (take n ops) (startup b c)))) \<longleftrightarrow>
      1 \<le> length (session_ids p (run (take n ops) (startup b c))))"
proof -
  have "registry_ok (run (take n ops) (startup b c))"
    by (rule registry_ok_run) (rule registry_ok_startup)
  then have a: "wf_dict (active_connections (run (take n ops) (startup b c)))"
    and s: "wf_dict (user_sessions (run (take n ops) (startup b c)))"
    by (simp_all add: registry_ok_def)
  show ?thesis
    using wf_dict_counts [OF a, where p = p and u = u]
      wf_dict_counts [OF s, where p = p and u = u]
    by (simp add: connection_ids_def session_ids_def)
qed

theorem registry_invariant_witness:
  "connection_ids ''p1'' (run (take 2 reconnect_ops) (startup {} (\<lambda>n. ''t''))) = [''u1''] \<and>
   count_list (connection_ids ''p1'' (run (take 2 reconnect_ops) (startup {} (\<lambda>n. ''t'')))) ''u1''
     \<le> 1 \<and>
   (''p1'' \<in> set (map fst (active_connections
                    (run (take 2 reconnect_ops) (startup {} (\<lambda>n. ''t''))))))"
proof -
  have ids: "connection_ids ''p1'' (run (take 2 reconnect_ops) (startup {} (\<lambda>n. ''t''))) = [''u1'']"
    by (simp add: run_def reconnect_ops_def startup_def connect_def accept_def
        register_connection_def register_session_def utcnow_def emit_def
        broadcast_to_project_def excluded_def send_personal_message_def send_text_def
        suspend_def next_batch_def connections_of_def raised_def
        active_users_def Let_def connection_ids_def)
  from registry_invariant [of 2 reconnect_ops "{}" "\<lambda>n. ''t''" "''p1''" "''u1''"]
  show ?thesis by (simp add: ids)
qed

section \<open>Facts about the dispatch\<close>

lemma touch_fields:
  "active_connections (touch p u w) = active_connections w"
  "tasks (touch p u w) = tasks w"
  "trace (touch p u w) = trace w"
  "broken (touch p u w) = broken w"
  "clock (touch p u w) = clock w"
  "pending (touch p u w) = pending w"
  by (simp_all add: touch_def Let_def utcnow_def split: option.split)

lemma raised_simps [simp]: "raised (Inr v) = None" "raised (Inl e) = Some e"
  by (simp_all add: raised_def)

lemma dispatch_edit:
  assumes "map_of m ''type'' = Some (JStr ''edit'')" and "pending w = []"
  shows "dispatch be ws pid u m w =
     (case commit_edit be (make_edit_history pid (u_id u) m) of
        Commit_ok \<Rightarrow> None
      | Commit_raises_rollback_ok \<Rightarrow> None
      | Commit_raises_rollback_raises \<Rightarrow> Some DatabaseError,
      snd (dispatch be ws pid u m w))"
    and "trace (snd (dispatch be ws pid u m w)) =
     trace w @
     (case commit_edit be (make_edit_history pid (u_id u) m) of
        Commit_ok \<Rightarrow> Db_commit (make_edit_history pid (u_id u) m) # fanout pid u m w
      | Commit_raises_rollback_ok \<Rightarrow>
          Db_commit_failed (make_edit_history pid (u_id u) m) # Db_rollback # fanout pid u m w
      | Commit_raises_rollback_raises \<Rightarrow>
          [Db_commit_failed (make_edit_history pid (u_id u) m), Db_rollback_failed])"
  using assms
  by (simp_all add: dispatch_def handle_edit_message_def Let_def split_beta utcnow_def emit_def
      broadcast_trace broadcast_returns_none fanout_def broadcast_copy_def stamp_time_def
      connections_of_def touch_fields split: db_outcome.split)

lemma dispatch_cursor:
  assumes "map_of m ''type'' = Some (JStr ''cursor'')" and "pending w = []"
  shows "fst (dispatch be ws pid u m w) = None"
    and "trace (snd (dispatch be ws pid u m w)) = trace w @ fanout pid u m w"
  using assms
  by (simp_all add: dispatch_def Let_def split_beta utcnow_def emit_def
      broadcast_trace broadcast_returns_none fanout_def broadcast_copy_def stamp_time_def
      connections_of_def touch_fields)

lemma stamped_stamp: "stamped uid info t (stamp m uid info t)"
  by (simp add: stamped_def stamp_def update_conv')

lemma stamp_echo:
  "k \<noteq> ''user_id'' \<Longrightarrow> k \<noteq> ''user_info'' \<Longrightarrow> k \<noteq> ''timestamp'' \<Longrightarrow>
   map_of (stamp m uid info t) k = map_of m k"
  by (simp add: stamp_def update_conv')

lemma commits_append: "commits (xs @ ys) = commits xs @ commits ys"
  by (simp add: commits_def)

lemma commits_fanout: "commits (fanout pid u m w) = []"
  by (induction "recipients (Some (str_uuid (u_id u))) (connections_of (str_uuid pid) w)")
     (simp_all add: commits_def fanout_def delivery_def)

lemma upt32:
  "[0..<32] = [0, 1, 2, 3, 4, 5, 6, 7, 8, 9, 10, 11, 12, 13, 14, 15, 16, 17, 18, 19, 20, 21,
               22, 23, 24, 25, 26, 27, 28, 29, 30, 31]"
  by (simp add: upt_rec)

lemma str_uuid_1: "str_uuid 1 = ''00000000-0000-0000-0000-000000000001''"
  by (simp add: str_uuid_def hex32_def hex_char_def upt32)

lemma str_uuid_2: "str_uuid 2 = ''00000000-0000-0000-0000-000000000002''"
  by (simp add: str_uuid_def hex32_def hex_char_def upt32)

lemma str_uuid_3: "str_uuid 3 = ''00000000-0000-0000-0000-000000000003''"
  by (simp add: str_uuid_def hex32_def hex_char_def upt32)

lemma receive_parsed: "receive_one be ws pid u (Parsed (JObj m)) w = dispatch be ws pid u m w"
  by (simp add: receive_one_def)

lemma str_uuid_5: "str_uuid 5 = ''00000000-0000-0000-0000-000000000005''"
  by (simp add: str_uuid_def hex32_def hex_char_def upt32)

lemma str_uuid_6: "str_uuid 6 = ''00000000-0000-0000-0000-000000000006''"
  by (simp add: str_uuid_def hex32_def hex_char_def upt32)

lemma broadcast_events:
  assumes "trace w3 = trace w @ pre" and "list_all C pre"
    and "\<And>ws. C (Sent ws M) \<and> C (Send_failed ws M)"
  shows "\<exists>es. trace (snd (broadcast_to_project p M ex w3)) = trace w @ es \<and> list_all C es"
proof -
  obtain es where es: "trace (snd (broadcast_to_project p M ex w3)) = trace w3 @ es"
    "list_all (\<lambda>e. \<exists>ws. e = Sent ws M \<or> e = Send_failed ws M) es"
    using broadcast_trace_any by blast
  have "list_all C es"
    using es(2) assms(3) by (auto simp add: list_all_iff)
  with es(1) assms(1,2) show ?thesis
    by (intro exI [of _ "pre @ es"]) simp
qed

lemma carries_stamp_copy:
  "carries_stamp (str_uuid (u_id u)) (user_info_of u) (stamp_time pid u w)
     (Sent ws (stamp m (str_uuid (u_id u)) (user_info_of u) (stamp_time pid u w))) \<and>
   carries_stamp (str_uuid (u_id u)) (user_info_of u) (stamp_time pid u w)
     (Send_failed ws (stamp m (str_uuid (u_id u)) (user_info_of u) (stamp_time pid u w)))"
  by (simp add: carries_stamp_def stamped_stamp)

lemma dispatch_events:
  assumes "map_of m ''type'' = Some (JStr ''edit'') \<or> map_of m ''type'' = Some (JStr ''cursor'')"
  shows "\<exists>es. trace (snd (dispatch be ws pid u m w)) = trace w @ es \<and>
     list_all (carries_stamp (str_uuid (u_id u)) (user_info_of u) (stamp_time pid u w)) es"
  using assms
proof
  assume e: "map_of m ''type'' = Some (JStr ''edit'')"
  show ?thesis
  proof (cases "commit_edit be (make_edit_history pid (u_id u) m)")
    case Commit_ok
    show ?thesis
      apply (simp add: dispatch_def handle_edit_message_def Let_def split_beta e Commit_ok
          utcnow_def touch_fields)
      apply (rule broadcast_events [where pre = "[Db_commit (make_edit_history pid (u_id u) m)]"])
        apply (simp_all add: emit_def touch_fields carries_stamp_def stamped_stamp stamp_time_def)
      done
  next
    case Commit_raises_rollback_ok
    show ?thesis
      apply (simp add: dispatch_def handle_edit_message_def Let_def split_beta e
          Commit_raises_rollback_ok utcnow_def touch_fields)
      apply (rule broadcast_events [where pre =
            "[Db_commit_failed (make_edit_history pid (u_id u) m), Db_rollback]"])
        apply (simp_all add: emit_def touch_fields carries_stamp_def stamped_stamp stamp_time_def)
      done
  next
    case Commit_raises_rollback_raises
    show ?thesis
      by (simp add: dispatch_def handle_edit_message_def Let_def split_beta e
          Commit_raises_rollback_raises emit_def touch_fields carries_stamp_def)
  qed
next
  assume c: "map_of m ''type'' = Some (JStr ''cursor'')"
  show ?thesis
    apply (simp add: dispatch_def Let_def split_beta c utcnow_def touch_fields)
    apply (rule broadcast_events [where pre = "[]"])
      apply (simp_all add: touch_fields carries_stamp_def stamped_stamp stamp_time_def)
    done
qed

lemma editing_room_sender:
  "connections_of (str_uuid 3) editing_room = [(str_uuid 1, 10), (str_uuid 2, 20)]"
  "broken editing_room = {}" "trace editing_room = []" "pending editing_room = []"
  by (simp_all add: editing_room_def connections_of_def)

lemma editing_room_fanout:
  "fanout 3 alice edit_note editing_room = [Sent 20 (broadcast_copy 3 alice edit_note editing_room)]"
  by (simp add: fanout_def editing_room_sender recipients_def excluded_def delivery_def
      alice_def str_uuid_1 str_uuid_2)

lemma editing_room_stamp_time: "stamp_time 3 alice editing_room = ''t1''"
  by (simp add: stamp_time_def touch_fields) (simp add: editing_room_def)

lemma editing_room_copy:
  "broadcast_copy 3 alice edit_note editing_room =
     [(''type'', JStr ''edit''), (''action'', JStr ''update''),
      (''user_id'', JStr (str_uuid 1)), (''timestamp'', JStr ''t1''),
      (''user_info'', JObj (user_info_of alice))]"
  by (simp add: broadcast_copy_def editing_room_stamp_time stamp_def edit_note_def)
     (simp add: alice_def)

lemma carries_stamp_fanout:
  "list_all (carries_stamp (str_uuid (u_id u)) (user_info_of u) (stamp_time pid u w))
     (fanout pid u m w)"
  by (auto simp add: list_all_iff fanout_def carries_stamp_def delivery_def broadcast_copy_def
      stamped_stamp)

section \<open>The stamp on fanned-out copies\<close>

text \<open>
  Claim C8. For an inbound \<open>edit\<close> or \<open>cursor\<close> object, whatever it contains,
  however the database answers and whatever the other tasks do meanwhile: the turn of
  the loop only adds events to the trace, and every send it adds (delivered or not)
  carries a message whose \<open>user_id\<close> is the connection's user, whose
  \<open>user_info\<close> is that user's info and whose \<open>timestamp\<close> is the server's clock
  reading; values that the client supplied under these three keys are replaced. The
  witness is a message that claims to come from \<open>mallory\<close> in \<open>1999\<close>.
\<close>

theorem fanned_out_copies_stamped:
  assumes "map_of m ''type'' = Some (JStr ''edit'') \<or> map_of m ''type'' = Some (JStr ''cursor'')"
  shows "take (length (trace w)) (trace (snd (receive_one be ws pid u (Parsed (JObj m)) w)))
       = trace w \<and>
     list_all (carries_stamp (str_uuid (u_id u)) (user_info_of u) (stamp_time pid u w))
       (drop (length (trace w)) (trace (snd (receive_one be ws pid u (Parsed (JObj m)) w))))"
proof -
  obtain es where "trace (snd (dispatch be ws pid u m w)) = trace w @ es"
    and "list_all (carries_stamp (str_uuid (u_id u)) (user_info_of u) (stamp_time pid u w)) es"
    using dispatch_events [OF assms] by blast
  then show ?thesis
    by (simp add: receive_parsed)
qed

theorem fanned_out_copies_stamped_witness:
  "map_of edit_note ''user_id'' = Some (JStr ''mallory'') \<and>
   map_of edit_note ''timestamp'' = Some (JStr ''1999'') \<and>
   trace (snd (receive_one good_backend 10 3 alice (Parsed (JObj edit_note)) editing_room)) =
     [Db_commit (make_edit_history 3 (u_id alice) edit_note),
      Sent 20 [(''type'', JStr ''edit''), (''action'', JStr ''update''),
              (''user_id'', JStr (str_uuid 1)), (''timestamp'', JStr ''t1''),
              (''user_info'', JObj (user_info_of alice))]] \<and>
   list_all (carries_stamp (str_uuid 1) (user_info_of alice) ''t1'')
     (trace (snd (receive_one good_backend 10 3 alice (Parsed (JObj edit_note)) editing_room)))"
proof -
  have a: "map_of edit_note ''type'' = Some (JStr ''edit'')
      \<or> map_of edit_note ''type'' = Some (JStr ''cursor'')"
    by (simp add: edit_note_def)
  have e: "map_of edit_note ''type'' = Some (JStr ''edit'')"
    by (simp add: edit_note_def)
  have b: "commit_edit good_backend (make_edit_history 3 (u_id alice) edit_note) = Commit_ok"
    by (simp add: good_backend_def)
  have t: "trace (snd (receive_one good_backend 10 3 alice (Parsed (JObj edit_note)) editing_room)) =
     [Db_commit (make_edit_history 3 (u_id alice) edit_note),
      Sent 20 (broadcast_copy 3 alice edit_note editing_room)]"
    by (simp add: receive_parsed dispatch_edit(2) [OF e editing_room_sender(4)] b
        editing_room_fanout editing_room_sender)
  from fanned_out_copies_stamped [OF a, of editing_room good_backend 10 3 alice]
  have "list_all (carries_stamp (str_uuid 1) (user_info_of alice) ''t1'')
     (trace (snd (receive_one good_backend 10 3 alice (Parsed (JObj edit_note)) editing_room)))"
    by (simp add: editing_room_stamp_time editing_room_sender) (simp add: alice_def)
  then show ?thesis
    by (simp add: t editing_room_copy) (simp add: edit_note_def)
qed

section \<open>An edit that is not persisted\<close>




section \<open>Defaults of the edit row\<close>

text \<open>
  Claim C10. \<open>handle_edit_message\<close> builds the row with \<^verbatim>\<open>message.get\<close>:
  a message without \<open>action\<close> or without \<open>object_type\<close> gives the string
  \<open>unknown\<close> there, and a message without \<open>object_id\<close>, \<open>changes\<close>,
  \<open>previous_data\<close>, \<open>new_data\<close> or \<open>session_id\<close> gives null there. Building
  the row cannot fail, and whatever the message lacks, the handler returns normally
  unless the commit raises and the rollback raises too; when the commit succeeds, the
  row with these defaults is what is committed.
\<close>

theorem edit_defaults:
  "(map_of m ''action'' = None \<longrightarrow> eh_action (make_edit_history p u m) = JStr ''unknown'') \<and>
   (map_of m ''object_type'' = None \<longrightarrow>
      eh_object_type (make_edit_history p u m) = JStr ''unknown'') \<and>
   (map_of m ''object_id'' = None \<longrightarrow> eh_object_id (make_edit_history p u m) = JNull) \<and>
   (map_of m ''changes'' = None \<longrightarrow> eh_changes (make_edit_history p u m) = JNull) \<and>
   (map_of m ''previous_data'' = None \<longrightarrow>
      eh_previous_data (make_edit_history p u m) = JNull) \<and>
   (map_of m ''new_data'' = None \<longrightarrow> eh_new_data (make_edit_history p u m) = JNull) \<and>
   (map_of m ''session_id'' = None \<longrightarrow> eh_session_id (make_edit_history p u m) = JNull) \<and>
   (fst (handle_edit_message be p u m w) = None \<longleftrightarrow>
      commit_edit be (make_edit_history p u m) \<noteq> Commit_raises_rollback_raises) \<and>
   (commit_edit be (make_edit_history p u m) = Commit_ok \<longrightarrow>
      trace (snd (handle_edit_message be p u m w)) =
        trace w @ [Db_commit (make_edit_history p u m)])"
  by (simp add: make_edit_history_def msg_get_def handle_edit_message_def Let_def emit_def
      split: db_outcome.split)

theorem edit_defaults_witness:
  "make_edit_history 3 1 bare_edit =
     \<lparr>eh_project_id = 3, eh_user_id = 1, eh_action = JStr ''unknown'',
      eh_object_type = JStr ''unknown'', eh_object_id = JNull, eh_changes = JNull,
      eh_previous_data = JNull, eh_new_data = JNull, eh_session_id = JNull\<rparr> \<and>
   fst (handle_edit_message good_backend 3 1 bare_edit editing_room) = None \<and>
   trace (snd (handle_edit_message good_backend 3 1 bare_edit editing_room)) =
     [Db_commit (make_edit_history 3 1 bare_edit)]"
proof -
  have c: "commit_edit good_backend (make_edit_history 3 1 bare_edit) = Commit_ok"
    by (simp add: good_backend_def)
  have n: "map_of bare_edit ''action'' = None" "map_of bare_edit ''object_type'' = None"
    "map_of bare_edit ''object_id'' = None" "map_of bare_edit ''changes'' = None"
    "map_of bare_edit ''previous_data'' = None" "map_of bare_edit ''new_data'' = None"
    "map_of bare_edit ''session_id'' = None"
    by (simp_all add: bare_edit_def)
  have r: "make_edit_history 3 1 bare_edit =
     \<lparr>eh_project_id = eh_project_id (make_edit_history 3 1 bare_edit),
      eh_user_id = eh_user_id (make_edit_history 3 1 bare_edit),
      eh_action = eh_action (make_edit_history 3 1 bare_edit),
      eh_object_type = eh_object_type (make_edit_history 3 1 bare_edit),
      eh_object_id = eh_object_id (make_edit_history 3 1 bare_edit),
      eh_changes = eh_changes (make_edit_history 3 1 bare_edit),
      eh_previous_data = eh_previous_data (make_edit_history 3 1 bare_edit),
      eh_new_data = eh_new_data (make_edit_history 3 1 bare_edit),
      eh_session_id = eh_session_id (make_edit_history 3 1 bare_edit)\<rparr>"
    by simp
  have i: "eh_project_id (make_edit_history 3 1 bare_edit) = 3"
    "eh_user_id (make_edit_history 3 1 bare_edit) = 1"
    by (simp_all add: make_edit_history_def)
  from edit_defaults [of bare_edit 3 1 good_backend editing_room] c n
  have d: "eh_action (make_edit_history 3 1 bare_edit) = JStr ''unknown''"
    "eh_object_type (make_edit_history 3 1 bare_edit) = JStr ''unknown''"
    "eh_object_id (make_edit_history 3 1 bare_edit) = JNull"
    "eh_changes (make_edit_history 3 1 bare_edit) = JNull"
    "eh_previous_data (make_edit_history 3 1 bare_edit) = JNull"
    "eh_new_data (make_edit_history 3 1 bare_edit) = JNull"
    "eh_session_id (make_edit_history 3 1 bare_edit) = JNull"
    "fst (handle_edit_message good_backend 3 1 bare_edit editing_room) = None"
    "trace (snd (handle_edit_message good_backend 3 1 bare_edit editing_room)) =
       trace editing_room @ [Db_commit (make_edit_history 3 1 bare_edit)]"
    by simp_all
  show ?thesis
    by (subst r) (simp add: d i editing_room_sender)
qed

section \<open>A broadcast that is interrupted\<close>

lemma busy_room_facts:
  "connection_ids (str_uuid 3) busy_room = [str_uuid 1, str_uuid 2, str_uuid 5]"
  "trace busy_room = []" "broken busy_room = {}"
  by (simp_all add: busy_room_def connection_ids_def)

lemma edit_fanout_undisturbed:
  assumes "map_of m ''type'' = Some (JStr ''edit'')"
    and "commit_edit be (make_edit_history pid (u_id u) m) = Commit_ok"
    and "pending w = []"
  shows "fst (receive_one be ws pid u (Parsed (JObj m)) w) = None \<and>
     trace (snd (receive_one be ws pid u (Parsed (JObj m)) w)) =
       trace w @ [Db_commit (make_edit_history pid (u_id u) m)]
       @ map (delivery (broadcast_copy pid u m w) (broken w))
           (filter (\<lambda>c. fst c \<noteq> str_uuid (u_id u)) (connections_of (str_uuid pid) w)) \<and>
     commits (trace (snd (receive_one be ws pid u (Parsed (JObj m)) w))) =
       commits (trace w) @ [make_edit_history pid (u_id u) m] \<and>
     stamped (str_uuid (u_id u)) (user_info_of u) (stamp_time pid u w)
       (broadcast_copy pid u m w) \<and>
     (\<forall>k. k \<notin> {''user_id'', ''user_info'', ''timestamp''} \<longrightarrow>
        map_of (broadcast_copy pid u m w) k = map_of m k)"
proof -
  have t: "trace (snd (dispatch be ws pid u m w)) =
      trace w @ Db_commit (make_edit_history pid (u_id u) m) # fanout pid u m w"
    using dispatch_edit(2) [OF assms(1,3), of be ws pid u] by (simp add: assms(2))
  have r: "fst (dispatch be ws pid u m w) = None"
    using dispatch_edit(1) [OF assms(1,3), of be ws pid u]
    by (metis assms(2) db_outcome.simps(7) fst_conv)
  have c: "commits (trace (snd (dispatch be ws pid u m w))) =
      commits (trace w) @ [make_edit_history pid (u_id u) m]"
    using commits_fanout [of pid u m w]
    by (simp add: t commits_append) (simp add: commits_def)
  show ?thesis
    unfolding receive_parsed
  proof (intro conjI)
    show "fst (dispatch be ws pid u m w) = None" by (rule r)
    show "trace (snd (dispatch be ws pid u m w)) =
       trace w @ [Db_commit (make_edit_history pid (u_id u) m)]
       @ map (delivery (broadcast_copy pid u m w) (broken w))
           (filter (\<lambda>c. fst c \<noteq> str_uuid (u_id u)) (connections_of (str_uuid pid) w))"
      by (simp add: t fanout_def recipients_others str_uuid_nonempty)
    show "commits (trace (snd (dispatch be ws pid u m w))) =
       commits (trace w) @ [make_edit_history pid (u_id u) m]" by (rule c)
    show "stamped (str_uuid (u_id u)) (user_info_of u) (stamp_time pid u w)
       (broadcast_copy pid u m w)"
      by (simp add: broadcast_copy_def stamped_stamp)
    show "\<forall>k. k \<notin> {''user_id'', ''user_info'', ''timestamp''} \<longrightarrow>
        map_of (broadcast_copy pid u m w) k = map_of m k"
      by (simp add: broadcast_copy_def stamp_echo)
  qed
qed

text \<open>
  Claim C2 holds as long as nothing changes the registry during the fan-out, and the
  code breaks it otherwise. Alice, Bob and Carol are in the project, Alice sends an edit
  and the database commits it. While the send to Bob is suspended, a fourth connection
  registers in the project. The loop of \<open>broadcast_to_project\<close> iterates the
  dictionary itself, so the next step of the iteration raises
  \<^verbatim>\<open>RuntimeError\<close>: Carol, a member other than the sender, gets no copy,
  the exception ends Alice's receive loop, and her connection is closed with 4500.
\<close>

theorem edit_broadcast_cut_short:
  "commit_edit good_backend (make_edit_history 3 (u_id alice) edit_note) = Commit_ok \<and>
   connection_ids (str_uuid 3) busy_room = [str_uuid 1, str_uuid 2, str_uuid 5] \<and>
   fst (receive_one good_backend 10 3 alice (Parsed (JObj edit_note)) busy_room)
     = Some RuntimeError \<and>
   trace (snd (receive_one good_backend 10 3 alice (Parsed (JObj edit_note)) busy_room)) =
     [Db_commit (make_edit_history 3 (u_id alice) edit_note),
      Sent 20 [(''type'', JStr ''edit''), (''action'', JStr ''update''),
               (''user_id'', JStr (str_uuid 1)), (''timestamp'', JStr ''t1''),
               (''user_info'', JObj (user_info_of alice))]] \<and>
   received 30 (trace (snd (receive_one good_backend 10 3 alice (Parsed (JObj edit_note))
                              busy_room))) = [] \<and>
   trace (serve good_backend 10 3 alice [Parsed (JObj edit_note)] busy_room) =
     [Db_commit (make_edit_history 3 (u_id alice) edit_note),
      Sent 20 [(''type'', JStr ''edit''), (''action'', JStr ''update''),
               (''user_id'', JStr (str_uuid 1)), (''timestamp'', JStr ''t1''),
               (''user_info'', JObj (user_info_of alice))],
      Close 10 4500]"
proof -
  have b: "commit_edit good_backend (make_edit_history 3 (u_id alice) edit_note) = Commit_ok"
    by (simp add: good_backend_def)
  have d: "dispatch good_backend 10 3 alice edit_note busy_room =
     (Some RuntimeError, snd (dispatch good_backend 10 3 alice edit_note busy_room))"
    and t: "trace (snd (dispatch good_backend 10 3 alice edit_note busy_room)) =
     [Db_commit (make_edit_history 3 (u_id alice) edit_note),
      Sent 20 [(''type'', JStr ''edit''), (''action'', JStr ''update''),
               (''user_id'', JStr (str_uuid 1)), (''timestamp'', JStr ''t1''),
               (''user_info'', JObj (user_info_of alice))]]"
    and k: "broken (snd (dispatch good_backend 10 3 alice edit_note busy_room)) = {}"
    by (simp_all add: dispatch_def handle_edit_message_def b Let_def split_beta)
       (simp_all add: busy_room_def edit_note_def alice_def touch_def utcnow_def emit_def
          broadcast_to_project_def send_text_def suspend_def next_batch_def size_changed_def
          connections_of_def register_connection_def register_session_def excluded_def
          stamp_def user_info_of_def make_edit_history_def msg_get_def Let_def
          str_uuid_1 str_uuid_2 str_uuid_3 str_uuid_5 str_uuid_6)
  have l: "receive_loop good_backend 10 3 alice [Parsed (JObj edit_note)] busy_room =
     (Some RuntimeError, snd (dispatch good_backend 10 3 alice edit_note busy_room))"
  proof -
    have "fst (dispatch good_backend 10 3 alice edit_note busy_room) = Some RuntimeError"
      using d by (metis fst_conv)
    then show ?thesis
      by (simp add: receive_parsed prod.case_eq_if)
  qed
  have s: "trace (serve good_backend 10 3 alice [Parsed (JObj edit_note)] busy_room) =
      trace (snd (dispatch good_backend 10 3 alice edit_note busy_room)) @ [Close 10 4500]"
    unfolding serve_def l
    by (simp add: Let_def internal_error_def close_def emit_def disconnect_fields k)
  have f: "fst (dispatch good_backend 10 3 alice edit_note busy_room) = Some RuntimeError"
    using d by (metis fst_conv)
  show ?thesis
    by (simp add: b busy_room_facts receive_parsed f t s received_def)
qed

section \<open>Joining a project\<close>

lemma update_append: "k \<notin> fst ` set al \<Longrightarrow> AList.update k v al = al @ [(k, v)]"
  by (induction al) auto

lemma recipients_all:
  "n \<notin> fst ` set cs \<Longrightarrow> recipients (Some n) cs = cs"
  by (induction cs) (auto simp add: recipients_def excluded_def)

lemma recipients_new:
  "n \<noteq> [] \<Longrightarrow> n \<notin> fst ` set cs \<Longrightarrow> recipients (Some n) (cs @ [(n, ws)]) = cs"
  using recipients_all [of n cs] by (simp add: recipients_def excluded_def)

lemma filter_broken_none:
  "\<forall>c\<in>set cs. snd c \<notin> B \<Longrightarrow> filter (\<lambda>c. snd c \<in> B) cs = []"
  by (induction cs) auto

lemma map_delivery_live:
  "\<forall>c\<in>set cs. snd c \<notin> B \<Longrightarrow> map (delivery m B) cs = map (\<lambda>c. Sent (snd c) m) cs"
  by (induction cs) (auto simp add: delivery_def)

lemma filter_others: "n \<notin> fst ` set ss \<Longrightarrow> filter (\<lambda>e. fst e \<noteq> n) ss = ss"
  by (induction ss) auto

lemma broadcast_state_some:
  "pending w = [] \<Longrightarrow> map_of (active_connections w) p \<noteq> None \<Longrightarrow>
   snd (broadcast_to_project p m ex w) =
     foldl (\<lambda>w' u. disconnect p u w')
       (w\<lparr>trace := trace w @ map (delivery m (broken w)) (recipients ex (connections_of p w))\<rparr>)
       (failed_members ex p w)"
  by (auto simp add: broadcast_state connections_of_def)

lemma connect_unfold:
  "ws \<notin> broken w \<Longrightarrow>
   connect ws p u i w =
     (let w4 = utcnow (register_session p u i (register_connection ws p u (emit (Accept ws) w)));
          b = broadcast_to_project p (user_joined_message u i (fst w4)) (Some u) (snd w4)
      in case raised (fst b) of
           Some e \<Rightarrow> (Some e, snd b)
         | None \<Rightarrow>
             (None, send_personal_message ws
                      (active_users_message (active_users p u (snd b)) (fst (utcnow (snd b))))
                      (snd (utcnow (snd b)))))"
  by (simp add: connect_def accept_def Let_def split_beta split: option.split)

lemma connect_trace:
  assumes quiet: "pending w = []"
    and live: "wn \<notin> broken w" "\<forall>c\<in>set (connections_of p w). snd c \<notin> broken w"
    and new: "n \<noteq> []" "n \<notin> fst ` set (connections_of p w)" "n \<notin> fst ` set (sessions_of p w)"
  shows "fst (connect wn p n info w) = None \<and>
     trace (snd (connect wn p n info w)) =
       trace w @ [Accept wn]
       @ map (\<lambda>c. Sent (snd c) (user_joined_message n info (clock w (ticks w + 2))))
           (connections_of p w)
       @ [Sent wn (active_users_message (map active_user_entry (sessions_of p w))
                    (clock w (ticks w + 3)))]"
proof -
  define w3 where "w3 = register_session p n info (register_connection wn p n (emit (Accept wn) w))"
  define w4 where "w4 = snd (utcnow w3)"
  define joined where "joined = user_joined_message n info (clock w (ticks w + 2))"
  have c3: "connections_of p w4 = connections_of p w @ [(n, wn)]"
    using new(2)
    by (simp add: w4_def w3_def connections_of_def register_session_def register_connection_def
        Let_def utcnow_def emit_def update_conv' update_append split: option.split)
  have s3: "sessions_of p w4 = sessions_of p w @
      [(n, \<lparr>user_info = info, connected_at = clock w (ticks w),
            last_activity = clock w (Suc (ticks w))\<rparr>)]"
    using new(3)
    by (simp add: w4_def w3_def sessions_of_def register_session_def register_connection_def
        Let_def utcnow_def emit_def update_conv' update_append split: option.split)
  have f4: "trace w4 = trace w @ [Accept wn]" "broken w4 = broken w" "clock w4 = clock w"
    "ticks w4 = ticks w + 3" "fst (utcnow w3) = clock w (ticks w + 2)"
    by (simp_all add: w4_def w3_def register_session_def register_connection_def
        Let_def utcnow_def emit_def)
  have q4: "pending w4 = []"
    using quiet
    by (simp add: w4_def w3_def register_session_def register_connection_def
        Let_def utcnow_def emit_def)
  define w5 where "w5 = snd (broadcast_to_project p joined (Some n) w4)"
  have r5: "fst (broadcast_to_project p joined (Some n) w4) = Inr None"
    using q4 by (rule broadcast_returns_none)
  have j: "user_joined_message n info (fst (utcnow w3)) = joined"
    by (simp add: joined_def f4(5))
  have rc: "recipients (Some n) (connections_of p w4) = connections_of p w"
    using new(1,2) by (simp add: c3 recipients_new)
  have fm: "failed_members (Some n) p w4 = []"
    using live(2) by (simp add: failed_members_def rc f4 filter_broken_none)
  have a5: "map_of (active_connections w4) p \<noteq> None"
    using c3 by (auto simp add: connections_of_def split: option.splits)
  have w5: "w5 = w4\<lparr>trace := trace w4 @ map (\<lambda>c. Sent (snd c) joined) (connections_of p w)\<rparr>"
    using live(2)
    by (simp add: w5_def broadcast_state_some [OF q4 a5] fm rc f4 map_delivery_live)
  have users: "active_users p n w5 = map active_user_entry (sessions_of p w)"
    using new(3) s3
    by (simp add: active_users_def w5 sessions_of_def filter_others)
  have unfold: "connect wn p n info w =
      (None, send_personal_message wn
               (active_users_message (active_users p n w5) (fst (utcnow w5))) (snd (utcnow w5)))"
    by (simp add: connect_unfold [OF live(1)] Let_def w3_def [symmetric] w4_def [symmetric] j
        w5_def [symmetric] r5)
  have q5: "pending w5 = []"
    using quiet by (simp add: w5 q4)
  show ?thesis
    unfolding unfold users
    using live(1)
    by (simp add: send_personal_message_def send_text_def emit_def utcnow_def suspend_quiet
        w5 f4 q4 joined_def)
qed

lemma connect_undisturbed:
  assumes "n \<noteq> []" and "wn \<notin> broken w" and "pending w = []"
  shows "(map_of (active_connections w) p = Some [(x, wx), (y, wy)] \<and>
      map_of (user_sessions w) p = Some [(x, sx), (y, sy)] \<and>
      n \<noteq> x \<and> n \<noteq> y \<and> wx \<notin> broken w \<and> wy \<notin> broken w \<longrightarrow>
        fst (connect wn p n info w) = None \<and>
        trace (snd (connect wn p n info w)) =
          trace w @
          [Accept wn,
           Sent wx [(''type'', JStr ''user_joined''), (''user_id'', JStr n),
                    (''user_info'', JObj info), (''timestamp'', JStr (clock w (ticks w + 2)))],
           Sent wy [(''type'', JStr ''user_joined''), (''user_id'', JStr n),
                    (''user_info'', JObj info), (''timestamp'', JStr (clock w (ticks w + 2)))],
           Sent wn [(''type'', JStr ''active_users''),
                    (''users'',
                     JArr [JObj [(''user_id'', JStr x), (''user_info'', JObj (user_info sx)),
                                 (''connected_at'', JStr (connected_at sx))],
                           JObj [(''user_id'', JStr y), (''user_info'', JObj (user_info sy)),
                                 (''connected_at'', JStr (connected_at sy))]]),
                    (''timestamp'', JStr (clock w (ticks w + 3)))]]) \<and>
     (map_of (active_connections w) p = None \<and> map_of (user_sessions w) p = None \<longrightarrow>
        fst (connect wn p n info w) = None \<and>
        trace (snd (connect wn p n info w)) =
          trace w @
          [Accept wn,
           Sent wn [(''type'', JStr ''active_users''), (''users'', JArr []),
                    (''timestamp'', JStr (clock w (ticks w + 3)))]])"
proof (intro conjI impI)
  assume h: "map_of (active_connections w) p = None \<and> map_of (user_sessions w) p = None"
  then have c: "connections_of p w = []" and s: "sessions_of p w = []"
    by (simp_all add: connections_of_def sessions_of_def)
  from connect_trace [of w wn p n info] assms
  show "fst (connect wn p n info w) = None"
    and "trace (snd (connect wn p n info w)) =
          trace w @
          [Accept wn,
           Sent wn [(''type'', JStr ''active_users''), (''users'', JArr []),
                    (''timestamp'', JStr (clock w (ticks w + 3)))]]"
    by (simp_all add: c s active_users_message_def)
next
  assume h: "map_of (active_connections w) p = Some [(x, wx), (y, wy)] \<and>
      map_of (user_sessions w) p = Some [(x, sx), (y, sy)] \<and>
      n \<noteq> x \<and> n \<noteq> y \<and> wx \<notin> broken w \<and> wy \<notin> broken w"
  then have c: "connections_of p w = [(x, wx), (y, wy)]"
    and s: "sessions_of p w = [(x, sx), (y, sy)]"
    by (simp_all add: connections_of_def sessions_of_def)
  from connect_trace [of w wn p n info] assms h
  show "fst (connect wn p n info w) = None"
    and "trace (snd (connect wn p n info w)) =
          trace w @
          [Accept wn,
           Sent wx [(''type'', JStr ''user_joined''), (''user_id'', JStr n),
                    (''user_info'', JObj info), (''timestamp'', JStr (clock w (ticks w + 2)))],
           Sent wy [(''type'', JStr ''user_joined''), (''user_id'', JStr n),
                    (''user_info'', JObj info), (''timestamp'', JStr (clock w (ticks w + 2)))],
           Sent wn [(''type'', JStr ''active_users''),
                    (''users'',
                     JArr [JObj [(''user_id'', JStr x), (''user_info'', JObj (user_info sx)),
                                 (''connected_at'', JStr (connected_at sx))],
                           JObj [(''user_id'', JStr y), (''user_info'', JObj (user_info sy)),
                                 (''connected_at'', JStr (connected_at sy))]]),
                    (''timestamp'', JStr (clock w (ticks w + 3)))]]"
    by (simp_all add: c s active_users_message_def user_joined_message_def
        active_user_entry_def)
qed

lemma two_members_racing_facts:
  "connection_ids ''p1'' two_members_racing = [''X'', ''Y'']"
  "broken two_members_racing = {}" "trace two_members_racing = []"
  by (simp_all add: two_members_racing_def two_members_def connection_ids_def)

text \<open>
  Claim C7 holds as long as nothing changes the registry during the announcement, and
  the code breaks it otherwise. X and Y are in the project and N connects. While the
  send of \<open>user_joined\<close> to X is suspended, another connection registers Z in the
  project. The next step of the iteration over the dictionary raises
  \<^verbatim>\<open>RuntimeError\<close>, which leaves \<open>broadcast_to_project\<close> and
  \<open>connect\<close>: Y receives no \<open>user_joined\<close>, N receives no \<open>active_users\<close>
  snapshot, and N stays registered although its \<open>connect\<close> has failed.
\<close>

theorem join_broadcast_cut_short:
  "connection_ids ''p1'' two_members_racing = [''X'', ''Y''] \<and>
   broken two_members_racing = {} \<and>
   fst (connect 3 ''p1'' ''N'' [(''username'', JStr ''n'')] two_members_racing)
     = Some RuntimeError \<and>
   trace (snd (connect 3 ''p1'' ''N'' [(''username'', JStr ''n'')] two_members_racing)) =
     [Accept 3,
      Sent 1 [(''type'', JStr ''user_joined''), (''user_id'', JStr ''N''),
              (''user_info'', JObj [(''username'', JStr ''n'')]),
              (''timestamp'', JStr ''t1'')]] \<and>
   received 2 (trace (snd (connect 3 ''p1'' ''N'' [(''username'', JStr ''n'')]
                             two_members_racing))) = [] \<and>
   received 3 (trace (snd (connect 3 ''p1'' ''N'' [(''username'', JStr ''n'')]
                             two_members_racing))) = [] \<and>
   connection_ids ''p1'' (snd (connect 3 ''p1'' ''N'' [(''username'', JStr ''n'')]
                                two_members_racing)) = [''X'', ''Y'', ''N'', ''Z'']"
proof -
  have c: "connect 3 ''p1'' ''N'' [(''username'', JStr ''n'')] two_members_racing =
     (Some RuntimeError,
      snd (connect 3 ''p1'' ''N'' [(''username'', JStr ''n'')] two_members_racing))"
    and t: "trace (snd (connect 3 ''p1'' ''N'' [(''username'', JStr ''n'')] two_members_racing)) =
     [Accept 3,
      Sent 1 [(''type'', JStr ''user_joined''), (''user_id'', JStr ''N''),
              (''user_info'', JObj [(''username'', JStr ''n'')]),
              (''timestamp'', JStr ''t1'')]]"
    and i: "connection_ids ''p1'' (snd (connect 3 ''p1'' ''N'' [(''username'', JStr ''n'')]
                                two_members_racing)) = [''X'', ''Y'', ''N'', ''Z'']"
    by (simp_all add: connect_def accept_def Let_def split_beta two_members_racing_def
        two_members_def utcnow_def emit_def broadcast_to_project_def send_text_def
        suspend_def next_batch_def size_changed_def connections_of_def connection_ids_def
        register_connection_def register_session_def excluded_def user_joined_message_def)
  have f: "fst (connect 3 ''p1'' ''N'' [(''username'', JStr ''n'')] two_members_racing)
      = Some RuntimeError"
    using c by (metis fst_conv)
  show ?thesis
    by (simp add: two_members_racing_facts f t i received_def)
qed

section \<open>Leaving the loop\<close>

lemma internal_error_fields:
  "pending (internal_error ws w) = pending w"
  "active_connections (internal_error ws w) = active_connections w"
  "user_sessions (internal_error ws w) = user_sessions w"
  "tasks (internal_error ws w) = tasks w"
  "broken (internal_error ws w) = broken w"
  "clock (internal_error ws w) = clock w"
  "trace (internal_error ws w) =
     trace w @ [if ws \<in> broken w then Close_failed ws 4500 else Close ws 4500]"
  by (simp_all add: internal_error_def close_def emit_def)

lemma disconnect_tasks:
  "tasks (disconnect p u w) =
     tasks w @
     (case map_of (sessions_of p w) u of
        None \<Rightarrow> []
      | Some s \<Rightarrow>
          if user_info s = [] then []
          else [Broadcast_task p (user_left_message u (user_info s) (clock w (ticks w)))
                  (Some u)])"
  by (simp add: disconnect_def sessions_of_def Let_def utcnow_def drop_connection_fields
      split: option.split)

lemma connections_of_disconnect:
  "connections_of p (disconnect p u w) = AList.delete u (connections_of p w)"
  by (auto simp add: connections_of_def disconnect_fields drop_connection_def Let_def
      update_conv' delete_conv' split: option.split)

lemma delete_filter: "AList.delete u cs = filter (\<lambda>c. fst c \<noteq> u) cs"
  by (induction cs) auto

lemma serve_exit:
  assumes "receive_loop be ws pid u frames w = (Some e, w1)"
  shows "serve be ws pid u frames w =
     (if e = WebSocketDisconnect then disconnect (str_uuid pid) (str_uuid (u_id u)) w1
      else internal_error ws (disconnect (str_uuid pid) (str_uuid (u_id u)) w1))"
  by (simp add: serve_def assms Let_def)

lemma connections_of_internal_error:
  "connections_of p (internal_error ws w) = connections_of p w"
  by (simp add: connections_of_def internal_error_fields)

lemma connection_ids_internal_error:
  "connection_ids p (internal_error ws w) = connection_ids p w"
  by (simp add: connection_ids_def internal_error_fields)

lemma session_ids_internal_error:
  "session_ids p (internal_error ws w) = session_ids p w"
  by (simp add: session_ids_def internal_error_fields)

lemma broadcast_after_leave:
  assumes "u \<notin> fst ` set (connections_of p w)" and "pending w = []"
  shows "trace (snd (broadcast_to_project p m (Some u) w)) =
     trace w @ map (delivery m (broken w)) (connections_of p w)"
  by (simp add: broadcast_trace [OF assms(2)] recipients_all [OF assms(1)])

lemma run_task_single:
  "tasks w = [Broadcast_task p m ex] \<Longrightarrow> pending w = [] \<Longrightarrow>
   trace (run_task w) = trace w @ map (delivery m (broken w)) (recipients ex (connections_of p w))"
  by (simp add: run_task_def broadcast_trace connections_of_def)

lemma cleanup_undisturbed:
  assumes "receive_loop be ws pid u frames w = (Some e, w1)"
  shows "str_uuid (u_id u) \<notin> set (connection_ids (str_uuid pid) (serve be ws pid u frames w)) \<and>
     str_uuid (u_id u) \<notin> set (session_ids (str_uuid pid) (serve be ws pid u frames w)) \<and>
     connections_of (str_uuid pid) (serve be ws pid u frames w) =
       filter (\<lambda>c. fst c \<noteq> str_uuid (u_id u)) (connections_of (str_uuid pid) w1) \<and>
     (\<forall>s. map_of (sessions_of (str_uuid pid) w1) (str_uuid (u_id u)) = Some s \<and>
          user_info s \<noteq> [] \<and> pending w1 = [] \<longrightarrow>
        tasks (serve be ws pid u frames w) =
          tasks w1 @
          [Broadcast_task (str_uuid pid)
             [(''type'', JStr ''user_left''), (''user_id'', JStr (str_uuid (u_id u))),
              (''user_info'', JObj (user_info s)), (''timestamp'', JStr (clock w1 (ticks w1)))]
             (Some (str_uuid (u_id u)))] \<and>
        trace (snd (broadcast_to_project (str_uuid pid)
                 [(''type'', JStr ''user_left''), (''user_id'', JStr (str_uuid (u_id u))),
              (''user_info'', JObj (user_info s)), (''timestamp'', JStr (clock w1 (ticks w1)))]
                 (Some (str_uuid (u_id u))) (serve be ws pid u frames w))) =
          trace (serve be ws pid u frames w) @
          map (delivery
                 [(''type'', JStr ''user_left''), (''user_id'', JStr (str_uuid (u_id u))),
              (''user_info'', JObj (user_info s)), (''timestamp'', JStr (clock w1 (ticks w1)))]
                 (broken w1))
            (filter (\<lambda>c. fst c \<noteq> str_uuid (u_id u)) (connections_of (str_uuid pid) w1)) \<and>
        (tasks w1 = [] \<longrightarrow>
           trace (run_task (serve be ws pid u frames w)) =
             trace (serve be ws pid u frames w) @
             map (delivery
                    [(''type'', JStr ''user_left''), (''user_id'', JStr (str_uuid (u_id u))),
              (''user_info'', JObj (user_info s)), (''timestamp'', JStr (clock w1 (ticks w1)))]
                    (broken w1))
               (filter (\<lambda>c. fst c \<noteq> str_uuid (u_id u)) (connections_of (str_uuid pid) w1))))"
proof -
  define P where "P = str_uuid pid"
  define U where "U = str_uuid (u_id u)"
  define S where "S = serve be ws pid u frames w"
  have S: "S = (if e = WebSocketDisconnect then disconnect P U w1
                else internal_error ws (disconnect P U w1))"
    unfolding S_def P_def U_def by (rule serve_exit [OF assms])
  have c: "connections_of P S = filter (\<lambda>c. fst c \<noteq> U) (connections_of P w1)"
    by (simp add: S connections_of_internal_error connections_of_disconnect delete_filter)
  have ci: "U \<notin> set (connection_ids P S)"
    by (simp add: S connection_ids_internal_error connection_ids_disconnect)
  have si: "U \<notin> set (session_ids P S)"
    by (simp add: S session_ids_internal_error session_ids_disconnect)
  have b: "broken S = broken w1"
    by (simp add: S internal_error_fields disconnect_fields)
  have q: "pending S = pending w1"
    by (simp add: S internal_error_fields disconnect_fields)
  have nin: "U \<notin> fst ` set (connections_of P S)"
    by (auto simp add: c)
  have t: "\<And>s. map_of (sessions_of P w1) U = Some s \<Longrightarrow> user_info s \<noteq> [] \<Longrightarrow>
      tasks S = tasks w1 @
        [Broadcast_task P (user_left_message U (user_info s) (clock w1 (ticks w1))) (Some U)]"
    by (simp add: S internal_error_fields disconnect_tasks)
  have bc: "\<And>m. pending w1 = [] \<Longrightarrow> trace (snd (broadcast_to_project P m (Some U) S)) =
      trace S @ map (delivery m (broken w1)) (filter (\<lambda>c. fst c \<noteq> U) (connections_of P w1))"
    using broadcast_after_leave [OF nin] by (simp add: b c q)
  have rt: "\<And>s. map_of (sessions_of P w1) U = Some s \<Longrightarrow> user_info s \<noteq> [] \<Longrightarrow>
      pending w1 = [] \<Longrightarrow> tasks w1 = [] \<Longrightarrow>
      trace (run_task S) =
        trace S @ map (delivery (user_left_message U (user_info s) (clock w1 (ticks w1)))
                         (broken w1))
                    (filter (\<lambda>c. fst c \<noteq> U) (connections_of P w1))"
    using run_task_single [of S P _ "Some U"] t recipients_all [OF nin]
    by (simp add: b c q)
  show ?thesis
    unfolding P_def [symmetric] U_def [symmetric] S_def [symmetric]
    using c ci si t [unfolded user_left_message_def] bc
      rt [unfolded user_left_message_def] by blast
qed

lemma busy_room_loop:
  "receive_loop good_backend 10 3 alice [Peer_closed] busy_room
     = (Some WebSocketDisconnect, busy_room)"
  by (simp add: receive_one_def)

text \<open>
  Claim C9 holds in its first half on every run: every exception that ends the loop
  leads to \<open>disconnect\<close>, which deregisters the member and schedules the leave
  broadcast. The broadcast itself can be cut short. Alice, Bob and Carol are in the
  project and Alice's peer disconnects; the task with \<open>user_left\<close> is scheduled
  and run. While its send to Bob is suspended, a fourth connection registers in the
  project, and the next step of the iteration raises \<^verbatim>\<open>RuntimeError\<close>
  inside the task: Carol, a remaining member, receives no \<open>user_left\<close>.
\<close>

theorem leave_broadcast_cut_short:
  "receive_loop good_backend 10 3 alice [Peer_closed] busy_room
     = (Some WebSocketDisconnect, busy_room) \<and>
   tasks (serve good_backend 10 3 alice [Peer_closed] busy_room) =
     [Broadcast_task (str_uuid 3)
        [(''type'', JStr ''user_left''), (''user_id'', JStr (str_uuid 1)),
         (''user_info'', JObj (user_info_of alice)), (''timestamp'', JStr ''t1'')]
        (Some (str_uuid 1))] \<and>
   connection_ids (str_uuid 3) (serve good_backend 10 3 alice [Peer_closed] busy_room) =
     [str_uuid 2, str_uuid 5] \<and>
   trace (run_task (serve good_backend 10 3 alice [Peer_closed] busy_room)) =
     [Sent 20 [(''type'', JStr ''user_left''), (''user_id'', JStr (str_uuid 1)),
               (''user_info'', JObj (user_info_of alice)), (''timestamp'', JStr ''t1'')]] \<and>
   received 30 (trace (run_task (serve good_backend 10 3 alice [Peer_closed] busy_room))) = [] \<and>
   connection_ids (str_uuid 3)
     (run_task (serve good_backend 10 3 alice [Peer_closed] busy_room)) =
     [str_uuid 2, str_uuid 5, str_uuid 6]"
proof -
  have s: "serve good_backend 10 3 alice [Peer_closed] busy_room =
      disconnect (str_uuid 3) (str_uuid (u_id alice)) busy_room"
    unfolding serve_def busy_room_loop by (simp add: Let_def)
  have k: "tasks (disconnect (str_uuid 3) (str_uuid (u_id alice)) busy_room) =
     [Broadcast_task (str_uuid 3)
        [(''type'', JStr ''user_left''), (''user_id'', JStr (str_uuid 1)),
         (''user_info'', JObj (user_info_of alice)), (''timestamp'', JStr ''t1'')]
        (Some (str_uuid 1))]"
    and c: "connection_ids (str_uuid 3) (disconnect (str_uuid 3) (str_uuid (u_id alice)) busy_room)
      = [str_uuid 2, str_uuid 5]"
    and t: "trace (run_task (disconnect (str_uuid 3) (str_uuid (u_id alice)) busy_room)) =
     [Sent 20 [(''type'', JStr ''user_left''), (''user_id'', JStr (str_uuid 1)),
               (''user_info'', JObj (user_info_of alice)), (''timestamp'', JStr ''t1'')]]"
    and r: "connection_ids (str_uuid 3)
       (run_task (disconnect (str_uuid 3) (str_uuid (u_id alice)) busy_room)) =
     [str_uuid 2, str_uuid 5, str_uuid 6]"
    by (simp_all add: run_task_def disconnect_def drop_connection_def busy_room_def alice_def
        user_info_of_def user_left_message_def utcnow_def emit_def Let_def split_beta
        broadcast_to_project_def send_text_def suspend_def next_batch_def size_changed_def
        connections_of_def connection_ids_def register_connection_def register_session_def
        excluded_def str_uuid_1 str_uuid_2 str_uuid_3 str_uuid_5 str_uuid_6)
  show ?thesis
    apply (intro conjI)
         apply (rule busy_room_loop)
        apply (simp_all add: s k c t r received_def)
    done
qed

section \<open>Close codes\<close>

text \<open>
  Claim C3 asks for a close code of its own for an authentication failure. The endpoint
  has none: \<open>get_websocket_user\<close> raises \<^verbatim>\<open>HTTPException(401)\<close>, the outer
  \<^verbatim>\<open>except Exception\<close> of the endpoint catches it, and the connection is
  closed with 4500, the code of an internal error. A token that does not verify and a
  project lookup that raises end in the same close; a missing project and a project of
  someone else get 4404 and 4403.
\<close>

theorem auth_failure_closes_like_internal_error:
  "get_websocket_user good_backend ''stolen'' = Inl (HTTPException 401) \<and>
   trace (project_websocket good_backend 10 3 ''stolen'' [] (startup {} (\<lambda>n. ''t'')))
     = [Close 10 4500] \<and>
   trace (project_websocket failing_lookup 10 3 ''alice-token'' [] (startup {} (\<lambda>n. ''t'')))
     = [Close 10 4500] \<and>
   trace (project_websocket good_backend 10 4 ''alice-token'' [] (startup {} (\<lambda>n. ''t'')))
     = [Close 10 4404] \<and>
   trace (project_websocket good_backend 10 3 ''bob-token'' [] (startup {} (\<lambda>n. ''t'')))
     = [Close 10 4403]"
proof -
  have a: "get_websocket_user good_backend ''stolen'' = Inl (HTTPException 401)"
    by (simp add: get_websocket_user_def good_backend_def)
  have b: "get_websocket_user good_backend ''alice-token'' = Inr alice"
    by (simp add: get_websocket_user_def good_backend_def alice_def)
  have b': "get_websocket_user failing_lookup ''alice-token'' = Inr alice"
    by (simp add: get_websocket_user_def failing_lookup_def good_backend_def alice_def)
  have c: "get_websocket_user good_backend ''bob-token'' = Inr bob"
    by (simp add: get_websocket_user_def good_backend_def bob_def str_uuid_1 str_uuid_2)
  show ?thesis
    by (simp add: a b b' c project_websocket_def)
       (simp add: good_backend_def failing_lookup_def alice_def bob_def internal_error_def
          close_def emit_def startup_def)
qed

end
